theory Spec2Isabelle
  imports Complex_Main
begin

section \<open>The store backend: request values\<close>

text \<open>
  This development embeds \<open>src/index.js\<close>, an Express application over one SQLite
  connection: the item endpoints \<open>POST /items\<close> and \<open>PUT /items/:id\<close>, the purchase
  endpoint \<open>POST /purchases\<close>, and the error handler. The repository's second file
  holds an earlier form of the same routes and is not embedded; the properties below are
  about \<open>index.js\<close>.

  A request body is the value \<open>express.json()\<close> parsed; a property that the body does
  not have reads as \<open>undefined\<close>. JavaScript numbers are modelled by rationals: every
  finite double is one, JSON has no NaN, and a literal too large for a double is not
  modelled. \<open>Number.isInteger\<close> is then "the number equals its floor", and an integer
  number is bound to SQL as that integer.
\<close>

datatype json =
    JUndefined
  | JNull
  | JBool bool
  | JNum rat
  | JStr string
  | JArr "json list"
  | JObj "(string \<times> json) list"

text \<open>\<open>!x\<close>: the values JavaScript treats as false.\<close>

fun falsy :: "json \<Rightarrow> bool" where
  "falsy JUndefined = True"
| "falsy JNull = True"
| "falsy (JBool b) = (\<not> b)"
| "falsy (JNum r) = (r = 0)"
| "falsy (JStr s) = (s = [])"
| "falsy (JArr xs) = False"
| "falsy (JObj kvs) = False"

text \<open>\<open>typeof x === "string"\<close> and \<open>typeof x === "number"\<close>.\<close>

fun is_string :: "json \<Rightarrow> bool" where
  "is_string (JStr s) = True"
| "is_string x = False"

fun is_number :: "json \<Rightarrow> bool" where
  "is_number (JNum r) = True"
| "is_number x = False"

text \<open>\<open>Number.isInteger(x)\<close>: a number with no fractional part.\<close>

fun isInteger :: "json \<Rightarrow> bool" where
  "isInteger (JNum r) = (of_int \<lfloor>r\<rfloor> = r)"
| "isInteger x = False"

text \<open>The numeric value of a number, and the text of a string; both are only read
  after the corresponding type test has passed.\<close>

fun num :: "json \<Rightarrow> rat" where
  "num (JNum r) = r"
| "num x = 0"

fun str :: "json \<Rightarrow> string" where
  "str (JStr s) = s"
| "str x = []"

text \<open>
  Property access \<open>x.k\<close> (and destructuring \<open>const { k } = x\<close>): a TypeError on
  \<open>undefined\<close> and \<open>null\<close>, the stored value on an object that has the key,
  \<open>undefined\<close> otherwise. The keys read by the handlers (\<open>customer_name\<close>,
  \<open>item_id\<close>, ...) are no built-in properties of strings, numbers or arrays.
\<close>

datatype js_error = TypeError

fun get_prop :: "json \<Rightarrow> string \<Rightarrow> js_error + json" where
  "get_prop JUndefined k = Inl TypeError"
| "get_prop JNull k = Inl TypeError"
| "get_prop (JObj kvs) k = Inr (case map_of kvs k of None \<Rightarrow> JUndefined | Some v \<Rightarrow> v)"
| "get_prop x k = Inr JUndefined"

text \<open>A response: the status code and the JSON body.\<close>

type_synonym response = "nat \<times> json"

definition error_body :: "string \<Rightarrow> json" where
  "error_body msg = JObj [(''error'', JStr msg)]"

text \<open>
  The global error handler (the last \<open>app.use\<close>): it logs the error on the server and
  answers 500 with a fixed body. Express routes to it both an exception thrown by a
  handler and an error passed to \<open>next\<close>.
\<close>

definition error_handler :: "'e \<Rightarrow> response" where
  "error_handler err = (500, error_body ''Internal Server Error'')"

section \<open>The SQLite store\<close>

text \<open>
  The three tables of the \<open>CREATE TABLE\<close> statements, each a list of rows keyed by
  the \<open>id\<close> column, with the AUTOINCREMENT counter SQLite keeps for the table. The
  \<open>date\<close> column of \<open>purchases\<close> (the clock at insertion) is left out. The
  FOREIGN KEY clauses are declarations only: the source never turns the
  \<open>foreign_keys\<close> pragma on, so SQLite does not enforce them.
\<close>

record item =
  name :: string
  stock :: int
  price :: rat

record purchase =
  customer_name :: string
  shipping_address :: string

record purchase_item =
  purchase_id :: int
  item_id :: int
  quantity :: int

record tables =
  items :: "(int \<times> item) list"
  items_seq :: int
  purchases :: "(int \<times> purchase) list"
  purchases_seq :: int
  purchase_items :: "(int \<times> purchase_item) list"
  purchase_items_seq :: int

text \<open>The connection: the current tables, and the tables as they were at
  \<open>BEGIN TRANSACTION\<close> while a transaction is open.\<close>

record db =
  cur :: tables
  saved :: "tables option"

text \<open>The SQL statements the handlers issue, with their bound parameters in the
  order of the source's parameter arrays.\<close>

datatype stmt =
    BEGIN_TRANSACTION
  | COMMIT
  | ROLLBACK
  | INSERT_items string int rat
  | UPDATE_items string int rat int
  | INSERT_purchases string string
  | INSERT_purchase_items int int int
  | UPDATE_stock int int int

text \<open>What a statement's callback receives: \<open>err\<close>, \<open>this.lastID\<close> and
  \<open>this.changes\<close>.\<close>

record result =
  err :: "string option"
  lastID :: int
  changes :: nat

definition ok :: "int \<Rightarrow> nat \<Rightarrow> result" where
  "ok l c = \<lparr>err = None, lastID = l, changes = c\<rparr>"

definition failed :: "string \<Rightarrow> result" where
  "failed m = \<lparr>err = Some m, lastID = 0, changes = 0\<rparr>"

text \<open>
  What the program does not decide is a parameter, the storage layer: \<open>fault s\<close> is the
  error the store raises on statement \<open>s\<close>, if any, and \<open>inexact_minus\<close> is the
  difference SQLite computes where it is not exact. A stock comes from a JavaScript
  number, so it is an integer of any size; SQLite keeps it as a 64-bit integer or, beyond
  that, as a double, and subtracts in the arithmetic of what it keeps. Where both numbers
  and their difference are at most \<open>2^53\<close> in absolute value the result is the exact
  difference in either arithmetic; elsewhere it may be rounded, and the model says nothing
  about it.
\<close>

record storage =
  fault :: "stmt \<Rightarrow> string option"
  inexact_minus :: "int \<Rightarrow> int \<Rightarrow> int"

definition exact :: "int \<Rightarrow> bool" where
  "exact n = (- (2 ^ 53) \<le> n \<and> n \<le> 2 ^ 53)"

definition sql_minus :: "storage \<Rightarrow> int \<Rightarrow> int \<Rightarrow> int" where
  "sql_minus f a b = (if exact a \<and> exact b \<and> exact (a - b) then a - b else inexact_minus f a b)"

text \<open>\<open>UPDATE items SET stock = stock - ? WHERE id = ? AND stock >= ?\<close> on the rows of
  \<open>items\<close>, and the number of rows it matches.\<close>

fun updateStock ::
  "storage \<Rightarrow> int \<Rightarrow> int \<Rightarrow> int \<Rightarrow> (int \<times> item) list \<Rightarrow> (int \<times> item) list" where
  "updateStock f q1 i q2 [] = []"
| "updateStock f q1 i q2 ((k, it) # rows) =
     (if k = i \<and> q2 \<le> stock it then (k, it\<lparr>stock := sql_minus f (stock it) q1\<rparr>) else (k, it))
       # updateStock f q1 i q2 rows"

fun updateStock_changes :: "int \<Rightarrow> int \<Rightarrow> (int \<times> item) list \<Rightarrow> nat" where
  "updateStock_changes i q2 [] = 0"
| "updateStock_changes i q2 ((k, it) # rows) =
     (if k = i \<and> q2 \<le> stock it then 1 else 0) + updateStock_changes i q2 rows"

text \<open>\<open>UPDATE items SET name = ?, stock = ?, price = ? WHERE id = ?\<close>.\<close>

fun updateItem :: "string \<Rightarrow> int \<Rightarrow> rat \<Rightarrow> int \<Rightarrow> (int \<times> item) list \<Rightarrow> (int \<times> item) list" where
  "updateItem n s p i [] = []"
| "updateItem n s p i ((k, it) # rows) =
     (if k = i then (k, \<lparr>name = n, stock = s, price = p\<rparr>) else (k, it))
       # updateItem n s p i rows"

fun updateItem_changes :: "int \<Rightarrow> (int \<times> item) list \<Rightarrow> nat" where
  "updateItem_changes i [] = 0"
| "updateItem_changes i ((k, it) # rows) = (if k = i then 1 else 0) + updateItem_changes i rows"

text \<open>A data statement on the tables. An AUTOINCREMENT insert takes the counter's
  successor as the new \<open>id\<close>.\<close>

fun run_sql :: "storage \<Rightarrow> stmt \<Rightarrow> tables \<Rightarrow> result \<times> tables" where
  "run_sql f (INSERT_items n s p) t =
     (let i = items_seq t + 1
      in (ok i 1, t\<lparr>items := items t @ [(i, \<lparr>name = n, stock = s, price = p\<rparr>)],
                    items_seq := i\<rparr>))"
| "run_sql f (UPDATE_items n s p i) t =
     (ok 0 (updateItem_changes i (items t)), t\<lparr>items := updateItem n s p i (items t)\<rparr>)"
| "run_sql f (INSERT_purchases cn sa) t =
     (let i = purchases_seq t + 1
      in (ok i 1,
          t\<lparr>purchases := purchases t @ [(i, \<lparr>customer_name = cn, shipping_address = sa\<rparr>)],
            purchases_seq := i\<rparr>))"
| "run_sql f (INSERT_purchase_items pid iid q) t =
     (let i = purchase_items_seq t + 1
      in (ok i 1,
          t\<lparr>purchase_items :=
              purchase_items t @ [(i, \<lparr>purchase_id = pid, item_id = iid, quantity = q\<rparr>)],
            purchase_items_seq := i\<rparr>))"
| "run_sql f (UPDATE_stock q1 i q2) t =
     (ok 0 (updateStock_changes i q2 (items t)), t\<lparr>items := updateStock f q1 i q2 (items t)\<rparr>)"
| "run_sql f s t = (ok 0 0, t)"

text \<open>
  A statement on the connection. \<open>BEGIN\<close> inside a transaction and \<open>COMMIT\<close> or
  \<open>ROLLBACK\<close> outside one are errors that change nothing; \<open>ROLLBACK\<close> restores the
  tables (and the AUTOINCREMENT counters, which SQLite keeps in a table) as they were at
  \<open>BEGIN\<close>; a data statement outside a transaction is applied at once.
\<close>

fun run_stmt :: "storage \<Rightarrow> stmt \<Rightarrow> db \<Rightarrow> result \<times> db" where
  "run_stmt f BEGIN_TRANSACTION d =
     (case saved d of
        None \<Rightarrow> (ok 0 0, d\<lparr>saved := Some (cur d)\<rparr>)
      | Some t \<Rightarrow> (failed ''cannot start a transaction within a transaction'', d))"
| "run_stmt f COMMIT d =
     (case saved d of
        None \<Rightarrow> (failed ''cannot commit - no transaction is active'', d)
      | Some t \<Rightarrow> (ok 0 0, d\<lparr>saved := None\<rparr>))"
| "run_stmt f ROLLBACK d =
     (case saved d of
        None \<Rightarrow> (failed ''cannot rollback - no transaction is active'', d)
      | Some t \<Rightarrow> (ok 0 0, \<lparr>cur = t, saved = None\<rparr>))"
| "run_stmt f s d = (case run_sql f s (cur d) of (r, t) \<Rightarrow> (r, d\<lparr>cur := t\<rparr>))"

text \<open>A statement that the storage layer fails changes nothing.\<close>

definition exec :: "storage \<Rightarrow> stmt \<Rightarrow> db \<Rightarrow> result \<times> db" where
  "exec f s d = (case fault f s of Some m \<Rightarrow> (failed m, d) | None \<Rightarrow> run_stmt f s d)"

section \<open>Callbacks and the event loop\<close>

text \<open>
  \<open>db.run\<close> and \<open>Statement#run\<close> only queue a statement: they return at once, and the
  callback given with the statement is called from the event loop after the statement
  has been executed, hence after the function that issued it has run to its end. A
  handler is therefore a synchronous part, which answers or issues statements, and the
  callbacks of those statements, which answer or issue further statements.

  The closures of the source, each with the variables it captures:
  \<^item> \<open>On_insert_item\<close>: the callback of the INSERT of \<open>app.post("/items")\<close>;
  \<^item> \<open>On_update_item\<close>: the callback of the UPDATE of \<open>app.put("/items/:id")\<close>;
  \<^item> \<open>On_insert_purchase items\<close>: the callback of the INSERT of
    \<open>app.post("/purchases")\<close>, which holds the loop over the lines;
  \<^item> \<open>On_update_stock\<close>: the callback of \<open>updateStock.run\<close>, which sets
    \<open>stockError\<close>;
  \<^item> \<open>On_commit purchaseId\<close>: the callback of \<open>COMMIT\<close>.
\<close>

datatype callback =
    No_callback
  | On_insert_item
  | On_update_item
  | On_insert_purchase "json list"
  | On_update_stock
  | On_commit int

type_synonym task = "stmt \<times> callback"

text \<open>
  The variables of one request that its callbacks share: the flag \<open>stockError\<close> and
  the response sent through \<open>res\<close>, if any; and whether the server process has exited.
\<close>

record env =
  stockError :: bool
  sent :: "response option"
  exited :: bool

text \<open>\<open>const { item_id, quantity } = item\<close> for a line that has passed validation:
  both are integers.\<close>

definition line :: "json \<Rightarrow> int \<times> int" where
  "line x =
     (case get_prop x ''item_id'' of
        Inl e \<Rightarrow> (0, 0)
      | Inr i \<Rightarrow> (case get_prop x ''quantity'' of
                   Inl e \<Rightarrow> (0, 0)
                 | Inr q \<Rightarrow> (\<lfloor>num i\<rfloor>, \<lfloor>num q\<rfloor>)))"

text \<open>
  The loop over the lines calls \<open>run\<close> once per line on each of the two prepared
  statements: the operations queued on \<open>insertPurchaseItem\<close> and those queued on
  \<open>updateStock\<close>, the latter with the callback that sets the flag.
\<close>

definition insertPurchaseItem_runs :: "int \<Rightarrow> (int \<times> int) list \<Rightarrow> task list" where
  "insertPurchaseItem_runs purchaseId ls =
     map (\<lambda>(iid, q). (INSERT_purchase_items purchaseId iid q, No_callback)) ls"

definition updateStock_runs :: "(int \<times> int) list \<Rightarrow> task list" where
  "updateStock_runs ls = map (\<lambda>(iid, q). (UPDATE_stock q iid q, On_update_stock)) ls"

definition created_purchase :: "int \<Rightarrow> json" where
  "created_purchase purchaseId =
     JObj [(''success'', JBool True), (''purchase_id'', JNum (of_int purchaseId))]"

text \<open>
  One callback run: the new variables and the statement objects it created, each with
  the operations queued on it, in order. In \<open>On_insert_purchase\<close> the test of
  \<open>stockError\<close> follows the loop in the same function, so it reads the flag as the
  declaration \<open>let stockError = false\<close> left it: the callbacks that set it have been
  queued with their statements and none has run.

  A statement issued without a callback that fails makes sqlite3 emit an \<open>error\<close>
  event nobody listens to, and the server process exits.
\<close>

fun run_callback :: "callback \<Rightarrow> result \<Rightarrow> env \<Rightarrow> env \<times> task list list" where
  "run_callback No_callback r e =
     (case err r of
        Some m \<Rightarrow> (e\<lparr>exited := True\<rparr>, [])
      | None \<Rightarrow> (e, []))"
| "run_callback On_insert_item r e =
     (case err r of
        Some m \<Rightarrow> (e\<lparr>sent := Some (error_handler m)\<rparr>, [])
      | None \<Rightarrow> (e\<lparr>sent := Some (201, JObj [(''id'', JNum (of_int (lastID r)))])\<rparr>, []))"
| "run_callback On_update_item r e =
     (case err r of
        Some m \<Rightarrow> (e\<lparr>sent := Some (error_handler m)\<rparr>, [])
      | None \<Rightarrow>
          if changes r = 0 then (e\<lparr>sent := Some (404, error_body ''Item not found'')\<rparr>, [])
          else (e\<lparr>sent := Some (200, JObj [(''updated'', JNum (of_nat (changes r)))])\<rparr>, []))"
| "run_callback (On_insert_purchase its) r e =
     (case err r of
        Some m \<Rightarrow> (e\<lparr>sent := Some (error_handler m)\<rparr>, [[(ROLLBACK, No_callback)]])
      | None \<Rightarrow>
          (let purchaseId = lastID r;
               e1 = e\<lparr>stockError := False\<rparr>;
               insertPurchaseItem = insertPurchaseItem_runs purchaseId (map line its);
               updateStock = updateStock_runs (map line its)
           in if stockError e1
              then (e1\<lparr>sent := Some (400, error_body ''Insufficient stock or invalid item'')\<rparr>,
                    [insertPurchaseItem, updateStock, [(ROLLBACK, No_callback)]])
              else (e1, [insertPurchaseItem, updateStock, [(COMMIT, On_commit purchaseId)]])))"
| "run_callback On_update_stock r e =
     (case err r of
        Some m \<Rightarrow> (e\<lparr>stockError := True\<rparr>, [])
      | None \<Rightarrow> if changes r = 0 then (e\<lparr>stockError := True\<rparr>, []) else (e, []))"
| "run_callback (On_commit purchaseId) r e =
     (case err r of
        Some m \<Rightarrow> (e\<lparr>sent := Some (error_handler m)\<rparr>, [[(ROLLBACK, No_callback)]])
      | None \<Rightarrow> (e\<lparr>sent := Some (201, created_purchase purchaseId)\<rparr>, []))"

text \<open>A bound on the statements a callback can still cause, for the termination of
  the event loop.\<close>

fun callback_weight :: "callback \<Rightarrow> nat" where
  "callback_weight (On_insert_purchase its) = 2 * length its + 3"
| "callback_weight (On_commit purchaseId) = 1"
| "callback_weight cb = 0"

definition task_weight :: "task \<Rightarrow> nat" where
  "task_weight t = Suc (callback_weight (snd t))"

definition queue_weight :: "task list \<Rightarrow> nat" where
  "queue_weight q = sum_list (map task_weight q)"

type_synonym journal = "(stmt \<times> result) list"

text \<open>
  sqlite3 runs the operations queued on one statement object one after another, in the
  order they were queued, and the statements issued inside \<open>db.serialize\<close> likewise.
  Between different statement objects it promises no order: their operations go to a
  thread pool. So the pending work is a list of queues, oldest object first, and a
  schedule says whose turn it is: the number \<open>c\<close> picks among the queues that are not
  empty, counted from the oldest and wrapping around.
\<close>

fun ready_from :: "nat \<Rightarrow> task list list \<Rightarrow> nat list" where
  "ready_from k [] = []"
| "ready_from k (q # qs) = (if q = [] then [] else [k]) @ ready_from (Suc k) qs"

definition pick :: "nat \<Rightarrow> task list list \<Rightarrow> nat option" where
  "pick c objs =
     (case ready_from 0 objs of
        [] \<Rightarrow> None
      | k # ks \<Rightarrow> Some ((k # ks) ! (c mod length (k # ks))))"

definition next_task :: "nat \<Rightarrow> task list list \<Rightarrow> (task \<times> task list list) option" where
  "next_task c objs =
     (case pick c objs of
        None \<Rightarrow> None
      | Some k \<Rightarrow>
          (case objs ! k of
             [] \<Rightarrow> None
           | t # rest \<Rightarrow> Some (t, objs[k := rest])))"

fun turn :: "nat list \<Rightarrow> nat" where
  "turn [] = 0"
| "turn (c # cs) = c"

text \<open>What is left in the database file when the process exits: an open transaction
  is lost.\<close>

definition at_exit :: "db \<Rightarrow> db" where
  "at_exit d = (case saved d of None \<Rightarrow> d | Some t \<Rightarrow> \<lparr>cur = t, saved = None\<rparr>)"

lemma ready_from_iff:
  "k \<in> set (ready_from j objs) \<longleftrightarrow> j \<le> k \<and> k - j < length objs \<and> objs ! (k - j) \<noteq> []"
proof (induction objs arbitrary: j k)
  case Nil
  show ?case by simp
next
  case (Cons q qs)
  show ?case
  proof (cases "k = j")
    case True
    then show ?thesis by (simp add: Cons.IH)
  next
    case False
    then show ?thesis
      by (auto simp: Cons.IH nth_Cons' Suc_diff_le)
  qed
qed

lemma pick_Some: "pick c objs = Some k \<Longrightarrow> k < length objs \<and> objs ! k \<noteq> []"
proof -
  assume a: "pick c objs = Some k"
  then obtain j js where r: "ready_from 0 objs = j # js"
    and k: "k = (j # js) ! (c mod length (j # js))"
    by (auto simp: pick_def split: list.splits)
  have "k \<in> set (j # js)"
    unfolding k by (rule nth_mem) simp
  with r have "k \<in> set (ready_from 0 objs)" by simp
  then show ?thesis by (simp add: ready_from_iff)
qed

lemma pick_None: "pick c objs = None \<Longrightarrow> k < length objs \<Longrightarrow> objs ! k = []"
proof (rule ccontr)
  assume a: "pick c objs = None" and b: "k < length objs" and c: "objs ! k \<noteq> []"
  from a have "ready_from 0 objs = []"
    by (simp add: pick_def split: list.splits)
  moreover from b c have "k \<in> set (ready_from 0 objs)"
    by (simp add: ready_from_iff)
  ultimately show False by simp
qed

lemma next_task_Some:
  "next_task c objs = Some (t, objs') \<Longrightarrow>
   \<exists>k rest. k < length objs \<and> objs ! k = t # rest \<and> objs' = objs[k := rest]"
  by (auto simp: next_task_def split: option.splits list.splits dest: pick_Some)

lemma next_task_None: "next_task c objs = None \<Longrightarrow> k < length objs \<Longrightarrow> objs ! k = []"
  by (auto simp: next_task_def split: option.splits list.splits dest: pick_Some pick_None)

lemma weight_update:
  "k < length objs \<Longrightarrow> objs ! k = t # rest \<Longrightarrow>
   sum_list (map queue_weight (objs[k := rest])) + task_weight t = sum_list (map queue_weight objs)"
proof (induction objs arbitrary: k)
  case Nil
  then show ?case by simp
next
  case (Cons q qs)
  then show ?case
    by (cases k) (simp_all add: queue_weight_def)
qed

lemma run_callback_weight:
  "run_callback cb r e = (e', new) \<Longrightarrow> sum_list (map queue_weight new) \<le> callback_weight cb"
  by (cases cb)
    (auto simp: queue_weight_def task_weight_def insertPurchaseItem_runs_def updateStock_runs_def
       Let_def comp_def split_def sum_list_triv split: option.splits if_splits)

text \<open>
  The event loop: the operation the schedule picks is executed, its callback runs, and the
  statement objects the callback created join the pending work. It ends when nothing is
  pending or the process has exited. The journal records every statement executed with
  its result.
\<close>

function event_loop ::
  "nat list \<Rightarrow> storage \<Rightarrow> task list list \<Rightarrow> env \<times> db \<times> journal \<Rightarrow> env \<times> db \<times> journal" where
  "event_loop sched f objs (e, d, l) =
     (if exited e then (e, at_exit d, l)
      else
        (case next_task (turn sched) objs of
           None \<Rightarrow> (e, d, l)
         | Some ((s, cb), objs') \<Rightarrow>
             (case exec f s d of
                (r, d') \<Rightarrow>
                  (case run_callback cb r e of
                     (e', new) \<Rightarrow>
                       event_loop (tl sched) f (objs' @ new) (e', d', l @ [(s, r)])))))"
  by pat_completeness auto
termination
  apply (relation "measure (\<lambda>(sched, f, objs, st). sum_list (map queue_weight objs))")
   apply simp
  apply (auto dest!: next_task_Some)
  subgoal for f objs e d a b xb yb xc yc k rest
    using weight_update [of k objs "(a, b)" rest] run_callback_weight [of b xb e xc yc]
    by (simp add: task_weight_def)
  done

declare event_loop.simps [simp del]

section \<open>The handlers\<close>

text \<open>What the synchronous part of a handler does: it throws, it answers, or it
  issues statements and returns.\<close>

datatype outcome =
    Throw js_error
  | Reply response
  | Issue "task list list"

text \<open>\<open>const { a, b, c } = req.body\<close>.\<close>

definition destructure3 ::
  "json \<Rightarrow> string \<Rightarrow> string \<Rightarrow> string \<Rightarrow> js_error + (json \<times> json \<times> json)" where
  "destructure3 body a b c =
     (case get_prop body a of
        Inl e \<Rightarrow> Inl e
      | Inr x \<Rightarrow>
          (case get_prop body b of
             Inl e \<Rightarrow> Inl e
           | Inr y \<Rightarrow>
               (case get_prop body c of
                  Inl e \<Rightarrow> Inl e
                | Inr z \<Rightarrow> Inr (x, y, z))))"

text \<open>The three checks shared by \<open>app.post("/items")\<close> and
  \<open>app.put("/items/:id")\<close>: the answer of the first that fails.\<close>

definition check_item :: "json \<Rightarrow> json \<Rightarrow> json \<Rightarrow> response option" where
  "check_item nm st pr =
     (if falsy nm \<or> \<not> is_string nm
      then Some (400, error_body ''Item name is required and must be a string'')
      else if \<not> isInteger st \<or> num st < 0
      then Some (400, error_body ''Stock must be a non-negative integer'')
      else if \<not> is_number pr \<or> num pr < 0
      then Some (400, error_body ''Price must be a non-negative number'')
      else None)"

definition post_items :: "json \<Rightarrow> outcome" where
  "post_items body =
     (case destructure3 body ''name'' ''stock'' ''price'' of
        Inl e \<Rightarrow> Throw e
      | Inr (nm, st, pr) \<Rightarrow>
          (case check_item nm st pr of
             Some r \<Rightarrow> Reply r
           | None \<Rightarrow> Issue [[(INSERT_items (str nm) \<lfloor>num st\<rfloor> (num pr), On_insert_item)]]))"

text \<open>The path parameter \<open>:id\<close> is modelled by the row id it denotes.\<close>

definition put_items :: "int \<Rightarrow> json \<Rightarrow> outcome" where
  "put_items i body =
     (case destructure3 body ''name'' ''stock'' ''price'' of
        Inl e \<Rightarrow> Throw e
      | Inr (nm, st, pr) \<Rightarrow>
          (case check_item nm st pr of
             Some r \<Rightarrow> Reply r
           | None \<Rightarrow> Issue [[(UPDATE_items (str nm) \<lfloor>num st\<rfloor> (num pr) i, On_update_item)]]))"

text \<open>\<open>Array.isArray\<close> and the elements of an array.\<close>

fun isArray :: "json \<Rightarrow> bool" where
  "isArray (JArr xs) = True"
| "isArray x = False"

fun elements :: "json \<Rightarrow> json list" where
  "elements (JArr xs) = xs"
| "elements x = []"

text \<open>The validation loop of \<open>app.post("/purchases")\<close>: the outcome of the first line
  that makes the handler return or throw, \<open>None\<close> when the loop runs to its end.\<close>

fun validate_items :: "json list \<Rightarrow> outcome option" where
  "validate_items [] = None"
| "validate_items (x # rest) =
     (case get_prop x ''item_id'' of
        Inl e \<Rightarrow> Some (Throw e)
      | Inr i \<Rightarrow>
          if falsy i \<or> \<not> isInteger i
          then Some (Reply (400, error_body ''Item ID must be an integer''))
          else (case get_prop x ''quantity'' of
                  Inl e \<Rightarrow> Some (Throw e)
                | Inr q \<Rightarrow>
                    if \<not> isInteger q \<or> num q \<le> 0
                    then Some (Reply (400, error_body ''Quantity must be a positive integer''))
                    else validate_items rest))"

text \<open>The two statements issued inside \<open>db.serialize\<close> run one after the other: one
  queue.\<close>

definition post_purchases :: "json \<Rightarrow> outcome" where
  "post_purchases body =
     (case destructure3 body ''customer_name'' ''shipping_address'' ''items'' of
        Inl e \<Rightarrow> Throw e
      | Inr (cn, sa, its) \<Rightarrow>
          if falsy cn \<or> \<not> is_string cn
          then Reply (400, error_body ''Customer name is required'')
          else if falsy sa \<or> \<not> is_string sa
          then Reply (400, error_body ''Shipping address is required'')
          else if \<not> isArray its \<or> elements its = []
          then Reply (400, error_body ''At least one item is required'')
          else (case validate_items (elements its) of
                  Some out \<Rightarrow> out
                | None \<Rightarrow>
                    Issue [[(BEGIN_TRANSACTION, No_callback),
                            (INSERT_purchases (str cn) (str sa),
                             On_insert_purchase (elements its))]]))"

text \<open>
  A request from its arrival to the moment nothing of it is pending: the response sent,
  the connection afterwards and the statements executed, under a schedule and a storage
  layer. A handler that throws is answered by the error handler; one that answers at once
  issues nothing.
\<close>

definition serve ::
  "nat list \<Rightarrow> storage \<Rightarrow> outcome \<Rightarrow> db \<Rightarrow> response option \<times> db \<times> journal" where
  "serve sched f out d =
     (case out of
        Throw e \<Rightarrow> (Some (error_handler e), d, [])
      | Reply r \<Rightarrow> (Some r, d, [])
      | Issue objs \<Rightarrow>
          (case event_loop sched f objs (\<lparr>stockError = False, sent = None, exited = False\<rparr>, d, []) of
             (e, d', l) \<Rightarrow> (sent e, d', l)))"

definition submit_purchase ::
  "nat list \<Rightarrow> storage \<Rightarrow> json \<Rightarrow> db \<Rightarrow> response option \<times> db \<times> journal" where
  "submit_purchase sched f body d = serve sched f (post_purchases body) d"

text \<open>The item endpoints issue one statement: there is nothing to schedule.\<close>

definition create_item :: "storage \<Rightarrow> json \<Rightarrow> db \<Rightarrow> response option \<times> db \<times> journal" where
  "create_item f body d = serve [] f (post_items body) d"

definition update_item :: "storage \<Rightarrow> int \<Rightarrow> json \<Rightarrow> db \<Rightarrow> response option \<times> db \<times> journal" where
  "update_item f i body d = serve [] f (put_items i body) d"

section \<open>Notions used to state the properties\<close>

text \<open>The row of \<open>purchase_items\<close> that a line \<open>(item_id, quantity)\<close> of purchase
  \<open>p\<close> becomes.\<close>

definition line_row :: "int \<Rightarrow> int \<times> int \<Rightarrow> purchase_item" where
  "line_row p l = \<lparr>purchase_id = p, item_id = fst l, quantity = snd l\<rparr>"

text \<open>The UPDATE statements of a list of lines, applied in order to the rows of
  \<open>items\<close>.\<close>

definition decrement_all ::
  "storage \<Rightarrow> (int \<times> int) list \<Rightarrow> (int \<times> item) list \<Rightarrow> (int \<times> item) list" where
  "decrement_all f ls rows = foldl (\<lambda>rs (i, q). updateStock f q i q rs) rows ls"

text \<open>The rows with quantity \<open>q\<close> taken from the stock of item \<open>i\<close>.\<close>

definition take_stock :: "int \<Rightarrow> int \<Rightarrow> (int \<times> item) list \<Rightarrow> (int \<times> item) list" where
  "take_stock i q rows = map (\<lambda>(k, x). (k, x\<lparr>stock := stock x - (if k = i then q else 0)\<rparr>)) rows"

text \<open>Every line finds its item with enough stock at the time the line is applied,
  that is after the quantities of the lines before it have been taken.\<close>

fun affordable :: "(int \<times> int) list \<Rightarrow> (int \<times> item) list \<Rightarrow> bool" where
  "affordable [] rows = True"
| "affordable ((i, q) # ls) rows =
     (case map_of rows i of
        None \<Rightarrow> False
      | Some it \<Rightarrow> q \<le> stock it \<and> affordable ls (take_stock i q rows))"

text \<open>The total quantity the lines request of item \<open>k\<close>.\<close>

definition requested :: "int \<Rightarrow> (int \<times> int) list \<Rightarrow> int" where
  "requested k ls = sum_list (map snd (filter (\<lambda>l. fst l = k) ls))"

text \<open>A request passes validation when the synchronous part of the handler reaches
  \<open>db.serialize\<close> and issues its statements.\<close>

definition passes_validation :: "json \<Rightarrow> bool" where
  "passes_validation body = (case post_purchases body of Issue q \<Rightarrow> True | _ \<Rightarrow> False)"

text \<open>
  The inputs of the specification's scenarios: a store outside a transaction whose only
  item has id 1, the given stock and price 5; a request of customer Ann with the given
  lines \<open>(item_id, quantity)\<close>; and a storage layer that never fails.
\<close>

definition scenario_store :: "int \<Rightarrow> db" where
  "scenario_store s =
     \<lparr>cur = \<lparr>items = [(1, \<lparr>name = ''widget'', stock = s, price = 5\<rparr>)], items_seq = 1,
              purchases = [], purchases_seq = 0,
              purchase_items = [], purchase_items_seq = 0\<rparr>,
      saved = None\<rparr>"

definition request_line :: "int \<times> int \<Rightarrow> json" where
  "request_line l = JObj [(''item_id'', JNum (of_int (fst l))), (''quantity'', JNum (of_int (snd l)))]"

definition purchase_request :: "(int \<times> int) list \<Rightarrow> json" where
  "purchase_request ls =
     JObj [(''customer_name'', JStr ''Ann''), (''shipping_address'', JStr ''1 Main St''),
           (''items'', JArr (map request_line ls))]"

definition no_faults :: storage where
  "no_faults = \<lparr>fault = (\<lambda>s. None), inexact_minus = (\<lambda>a b. a - b)\<rparr>"

text \<open>A storage layer on which \<open>COMMIT\<close> fails, as it does when another connection
  holds a lock on the database file; the transaction stays open.\<close>

definition commit_fails :: storage where
  "commit_fails =
     \<lparr>fault = (\<lambda>s. if s = COMMIT then Some ''database is locked'' else None),
      inexact_minus = (\<lambda>a b. a - b)\<rparr>"

text \<open>
  Subtraction on doubles, for integers below \<open>2^1024\<close>: the nearest integer with 53
  significant bits, the even one of two that are as near. It is what SQLite computes when
  the stock is beyond the 64-bit range and therefore kept as a double.
\<close>

function ulp :: "int \<Rightarrow> int" where
  "ulp n = (if n < 2 ^ 53 then 1 else 2 * ulp (n div 2))"
  by pat_completeness auto
termination
  by (relation "measure nat") auto

declare ulp.simps [simp del]

definition to_double :: "int \<Rightarrow> int" where
  "to_double n =
     (let a = \<bar>n\<bar>; u = ulp a; m = a div u; r = a mod u
      in sgn n * (if 2 * r < u \<or> (2 * r = u \<and> even m) then m * u else (m + 1) * u))"

definition double_minus :: "int \<Rightarrow> int \<Rightarrow> int" where
  "double_minus a b = to_double (to_double a - to_double b)"

definition double_storage :: storage where
  "double_storage = \<lparr>fault = (\<lambda>s. None), inexact_minus = double_minus\<rparr>"



text \<open>The value of a property, \<open>undefined\<close> where reading it would throw.\<close>

definition field :: "json \<Rightarrow> string \<Rightarrow> json" where
  "field x k = (case get_prop x k of Inl e \<Rightarrow> JUndefined | Inr v \<Rightarrow> v)"

text \<open>Text that is not empty; an integer above zero; an integer other than zero.\<close>

definition nonempty_text :: "json \<Rightarrow> bool" where
  "nonempty_text x = (is_string x \<and> str x \<noteq> [])"

definition positive_integer :: "json \<Rightarrow> bool" where
  "positive_integer x = (isInteger x \<and> 0 < num x)"

definition nonzero_integer :: "json \<Rightarrow> bool" where
  "nonzero_integer x = (isInteger x \<and> num x \<noteq> 0)"

text \<open>
  The requests the specification's validator accepts, in its words: customer name and
  shipping address are non-empty text, the lines are a non-empty sequence, and every
  line's item identifier and quantity are positive integers.
\<close>

definition claimed_request :: "json \<Rightarrow> bool" where
  "claimed_request body =
     (nonempty_text (field body ''customer_name'') \<and>
      nonempty_text (field body ''shipping_address'') \<and>
      isArray (field body ''items'') \<and>
      elements (field body ''items'') \<noteq> [] \<and>
      list_all (\<lambda>x. positive_integer (field x ''item_id'') \<and>
                    positive_integer (field x ''quantity''))
        (elements (field body ''items'')))"

text \<open>The same with "an integer other than zero" for the item identifier.\<close>

definition accepted_request :: "json \<Rightarrow> bool" where
  "accepted_request body =
     (nonempty_text (field body ''customer_name'') \<and>
      nonempty_text (field body ''shipping_address'') \<and>
      isArray (field body ''items'') \<and>
      elements (field body ''items'') \<noteq> [] \<and>
      list_all (\<lambda>x. nonzero_integer (field x ''item_id'') \<and>
                    positive_integer (field x ''quantity''))
        (elements (field body ''items'')))"

text \<open>A body for the item endpoints.\<close>

definition item_request :: "json \<Rightarrow> json \<Rightarrow> json \<Rightarrow> json" where
  "item_request nm st pr = JObj [(''name'', nm), (''stock'', st), (''price'', pr)]"




text \<open>The lines of a request as the pairs \<open>(item_id, quantity)\<close> that the loop over
  the lines binds to its statements.\<close>

definition lines_of :: "json \<Rightarrow> (int \<times> int) list" where
  "lines_of body =
     map (\<lambda>x. (\<lfloor>num (field x ''item_id'')\<rfloor>, \<lfloor>num (field x ''quantity'')\<rfloor>))
       (elements (field body ''items''))"

text \<open>What the line statements executed between two states of the connection have
  done to the tables.\<close>

definition lines_done ::
  "storage \<Rightarrow> int \<Rightarrow> (int \<times> int) list \<Rightarrow> (int \<times> int) list \<Rightarrow> db \<Rightarrow> db \<Rightarrow> bool" where
  "lines_done f p ls1 ls2 d d' =
     (items (cur d') = decrement_all f ls2 (items (cur d)) \<and>
      items_seq (cur d') = items_seq (cur d) \<and>
      purchases (cur d') = purchases (cur d) \<and>
      purchases_seq (cur d') = purchases_seq (cur d) \<and>
      map snd (purchase_items (cur d')) =
        map snd (purchase_items (cur d)) @ map (line_row p) ls1)"

lemmas eval_defs = submit_purchase_def serve_def post_purchases_def destructure3_def
  purchase_request_def request_line_def scenario_store_def no_faults_def commit_fails_def
  exec_def ok_def failed_def line_def error_body_def created_purchase_def
  error_handler_def event_loop.simps next_task_def pick_def
  insertPurchaseItem_runs_def updateStock_runs_def sql_minus_def exact_def at_exit_def
  passes_validation_def

section \<open>The pending work of a purchase\<close>

lemma next_task4:
  assumes "next_task c [q0, q1, q2, q3] = Some (t, objs')"
  shows "(\<exists>rest. q0 = t # rest \<and> objs' = [rest, q1, q2, q3])
       \<or> (\<exists>rest. q1 = t # rest \<and> objs' = [q0, rest, q2, q3])
       \<or> (\<exists>rest. q2 = t # rest \<and> objs' = [q0, q1, rest, q3])
       \<or> (\<exists>rest. q3 = t # rest \<and> objs' = [q0, q1, q2, rest])"
proof -
  from next_task_Some [OF assms] obtain k rest where
    k: "k < length [q0, q1, q2, q3]" and n: "[q0, q1, q2, q3] ! k = t # rest"
    and o: "objs' = [q0, q1, q2, q3][k := rest]"
    by blast
  from k have "k = 0 \<or> k = 1 \<or> k = 2 \<or> k = 3" by auto
  then show ?thesis using n o by auto
qed

lemma next_task4_None:
  assumes "next_task c [q0, q1, q2, q3] = None"
  shows "q0 = [] \<and> q1 = [] \<and> q2 = [] \<and> q3 = []"
  using next_task_None [OF assms, of 0] next_task_None [OF assms, of 1]
    next_task_None [OF assms, of 2] next_task_None [OF assms, of 3]
  by simp

lemma lines_done_none: "lines_done f p [] [] d d"
  by (simp add: lines_done_def decrement_all_def)

lemma lines_done_insert:
  assumes "fault f (INSERT_purchase_items p i q) = None"
    and "exec f (INSERT_purchase_items p i q) d = (r, d1)"
    and "lines_done f p ls1 ls2 d1 d'"
  shows "lines_done f p ((i, q) # ls1) ls2 d d' \<and> err r = None \<and> saved d1 = saved d"
  using assms by (auto simp: lines_done_def exec_def Let_def ok_def line_row_def)

lemma lines_done_update:
  assumes "fault f (UPDATE_stock q i q) = None"
    and "exec f (UPDATE_stock q i q) d = (r, d1)"
    and "lines_done f p ls1 ls2 d1 d'"
  shows "lines_done f p ls1 ((i, q) # ls2) d d' \<and> err r = None \<and> saved d1 = saved d"
  using assms by (auto simp: lines_done_def exec_def ok_def decrement_all_def)

lemma after_commit:
  assumes nf: "\<And>s. fault f s = None"
  shows "\<not> exited e \<Longrightarrow>
     event_loop sched f [[], insertPurchaseItem_runs p ls1, updateStock_runs ls2, []] (e, d, l)
       = (e', d', l') \<Longrightarrow>
     lines_done f p ls1 ls2 d d' \<and> sent e' = sent e \<and> saved d' = saved d"
proof (induction n \<equiv> "length ls1 + length ls2" arbitrary: sched ls1 ls2 e d l)
  case 0
  then have "ls1 = []" "ls2 = []" by simp_all
  with "0.prems" show ?case
    by (simp add: event_loop.simps next_task_def pick_def insertPurchaseItem_runs_def
        updateStock_runs_def lines_done_none)
next
  case (Suc n)
  let ?objs = "[[], insertPurchaseItem_runs p ls1, updateStock_runs ls2, []]"
  show ?case
  proof (cases "next_task (turn sched) ?objs")
    case None
    from next_task4_None [OF None] Suc.hyps(2) show ?thesis
      by (simp add: insertPurchaseItem_runs_def updateStock_runs_def)
  next
    case (Some x)
    obtain s cb objs' where x: "x = ((s, cb), objs')" by (cases x) auto
    obtain r d1 where ex: "exec f s d = (r, d1)" by (cases "exec f s d")
    obtain e1 new where rc: "run_callback cb r e = (e1, new)" by (cases "run_callback cb r e")
    have step: "event_loop sched f ?objs (e, d, l) =
        event_loop (tl sched) f (objs' @ new) (e1, d1, l @ [(s, r)])"
      using Suc.prems(1) Some x ex rc by (simp add: event_loop.simps)
    from next_task4 [OF Some [unfolded x]]
    consider (ins) rest where "insertPurchaseItem_runs p ls1 = (s, cb) # rest"
        "objs' = [[], rest, updateStock_runs ls2, []]"
      | (upd) rest where "updateStock_runs ls2 = (s, cb) # rest"
        "objs' = [[], insertPurchaseItem_runs p ls1, rest, []]"
      by auto
    then show ?thesis
    proof cases
      case ins
      then obtain i q ls where ls: "ls1 = (i, q) # ls" "s = INSERT_purchase_items p i q"
        "cb = No_callback" "rest = insertPurchaseItem_runs p ls"
        by (auto simp: insertPurchaseItem_runs_def)
      have r: "err r = None" using ex nf ls by (auto simp: exec_def Let_def ok_def)
      with rc ls have e1: "e1 = e" "new = []" by simp_all
      have n: "n = length ls + length ls2" using Suc.hyps(2) ls by simp
      have "event_loop (tl sched) f [[], insertPurchaseItem_runs p ls, updateStock_runs ls2, []]
          (e, d1, l @ [(s, r)]) = (e', d', l')"
        using Suc.prems(2) step ins ls e1 by simp
      from Suc.hyps(1) [OF n Suc.prems(1) this]
      have "lines_done f p ls ls2 d1 d'" "sent e' = sent e" "saved d' = saved d1" by simp_all
      with lines_done_insert [OF nf ex [unfolded ls(2)]] ls show ?thesis by simp
    next
      case upd
      then obtain i q ls where ls: "ls2 = (i, q) # ls" "s = UPDATE_stock q i q"
        "cb = On_update_stock" "rest = updateStock_runs ls"
        by (auto simp: updateStock_runs_def)
      have r: "err r = None" using ex nf ls by (auto simp: exec_def ok_def)
      with rc ls have e1: "sent e1 = sent e" "\<not> exited e1" "new = []"
        using Suc.prems(1) by (auto split: if_splits)
      have n: "n = length ls1 + length ls" using Suc.hyps(2) ls by simp
      have "event_loop (tl sched) f [[], insertPurchaseItem_runs p ls1, updateStock_runs ls, []]
          (e1, d1, l @ [(s, r)]) = (e', d', l')"
        using Suc.prems(2) step upd ls e1 by simp
      from Suc.hyps(1) [OF n e1(2) this]
      have "lines_done f p ls1 ls d1 d'" "sent e' = sent e1" "saved d' = saved d1" by simp_all
      with lines_done_update [OF nf ex [unfolded ls(2)]] ls e1 show ?thesis by simp
    qed
  qed
qed

lemma lines_done_cur: "cur d1 = cur d \<Longrightarrow> lines_done f p ls1 ls2 d1 d' = lines_done f p ls1 ls2 d d'"
  by (simp add: lines_done_def)

lemma before_commit:
  assumes nf: "\<And>s. fault f s = None"
  shows "\<not> exited e \<Longrightarrow> saved d = Some t \<Longrightarrow>
     event_loop sched f
       [[], insertPurchaseItem_runs p ls1, updateStock_runs ls2, [(COMMIT, On_commit p)]]
       (e, d, l) = (e', d', l') \<Longrightarrow>
     lines_done f p ls1 ls2 d d' \<and> sent e' = Some (201, created_purchase p) \<and> saved d' = None"
proof (induction "length ls1 + length ls2" arbitrary: sched ls1 ls2 e d l rule: less_induct)
  case less
  let ?objs = "[[], insertPurchaseItem_runs p ls1, updateStock_runs ls2, [(COMMIT, On_commit p)]]"
  show ?case
  proof (cases "next_task (turn sched) ?objs")
    case None
    from next_task4_None [OF None] show ?thesis by simp
  next
    case (Some x)
    obtain s cb objs' where x: "x = ((s, cb), objs')" by (cases x) auto
    obtain r d1 where ex: "exec f s d = (r, d1)" by (cases "exec f s d")
    obtain e1 new where rc: "run_callback cb r e = (e1, new)" by (cases "run_callback cb r e")
    have step: "event_loop sched f ?objs (e, d, l) =
        event_loop (tl sched) f (objs' @ new) (e1, d1, l @ [(s, r)])"
      using less.prems(1) Some x ex rc by (simp add: event_loop.simps)
    from next_task4 [OF Some [unfolded x]]
    consider (ins) rest where "insertPurchaseItem_runs p ls1 = (s, cb) # rest"
        "objs' = [[], rest, updateStock_runs ls2, [(COMMIT, On_commit p)]]"
      | (upd) rest where "updateStock_runs ls2 = (s, cb) # rest"
        "objs' = [[], insertPurchaseItem_runs p ls1, rest, [(COMMIT, On_commit p)]]"
      | (com) "s = COMMIT" "cb = On_commit p"
        "objs' = [[], insertPurchaseItem_runs p ls1, updateStock_runs ls2, []]"
      by auto
    then show ?thesis
    proof cases
      case ins
      then obtain i q ls where ls: "ls1 = (i, q) # ls" "s = INSERT_purchase_items p i q"
        "cb = No_callback" "rest = insertPurchaseItem_runs p ls"
        by (auto simp: insertPurchaseItem_runs_def)
      have r: "err r = None" and sv: "saved d1 = saved d"
        using ex nf ls by (auto simp: exec_def Let_def ok_def)
      with rc ls have e1: "e1 = e" "new = []" by simp_all
      have n: "length ls + length ls2 < length ls1 + length ls2" using ls by simp
      have "event_loop (tl sched) f
          [[], insertPurchaseItem_runs p ls, updateStock_runs ls2, [(COMMIT, On_commit p)]]
          (e, d1, l @ [(s, r)]) = (e', d', l')"
        using less.prems(3) step ins ls e1 by simp
      from less.hyps [OF n less.prems(1) _ this] sv less.prems(2)
      have "lines_done f p ls ls2 d1 d'" "sent e' = Some (201, created_purchase p)"
        "saved d' = None" by simp_all
      with lines_done_insert [OF nf ex [unfolded ls(2)]] ls show ?thesis by simp
    next
      case upd
      then obtain i q ls where ls: "ls2 = (i, q) # ls" "s = UPDATE_stock q i q"
        "cb = On_update_stock" "rest = updateStock_runs ls"
        by (auto simp: updateStock_runs_def)
      have r: "err r = None" and sv: "saved d1 = saved d"
        using ex nf ls by (auto simp: exec_def ok_def)
      with rc ls have e1: "\<not> exited e1" "new = []"
        using less.prems(1) by (auto split: if_splits)
      have n: "length ls1 + length ls < length ls1 + length ls2" using ls by simp
      have "event_loop (tl sched) f
          [[], insertPurchaseItem_runs p ls1, updateStock_runs ls, [(COMMIT, On_commit p)]]
          (e1, d1, l @ [(s, r)]) = (e', d', l')"
        using less.prems(3) step upd ls e1 by simp
      from less.hyps [OF n e1(1) _ this] sv less.prems(2)
      have "lines_done f p ls1 ls d1 d'" "sent e' = Some (201, created_purchase p)"
        "saved d' = None" by simp_all
      with lines_done_update [OF nf ex [unfolded ls(2)]] ls show ?thesis by simp
    next
      case com
      have r: "r = ok 0 0" and d1: "d1 = d\<lparr>saved := None\<rparr>"
        using ex nf com less.prems(2) by (auto simp: exec_def)
      with rc com have e1: "e1 = e\<lparr>sent := Some (201, created_purchase p)\<rparr>" "new = []"
        by (simp_all add: ok_def)
      have "event_loop (tl sched) f
          [[], insertPurchaseItem_runs p ls1, updateStock_runs ls2, []]
          (e1, d1, l @ [(s, r)]) = (e', d', l')"
        using less.prems(3) step com e1 by simp
      from after_commit [OF nf _ this] less.prems(1) e1
      have "lines_done f p ls1 ls2 d1 d'" "sent e' = sent e1" "saved d' = saved d1" by simp_all
      then show ?thesis
        using e1 d1 lines_done_cur [of d1 d f p ls1 ls2 d'] by simp
    qed
  qed
qed

lemma validate_items_no_issue: "validate_items xs \<noteq> Some (Issue q)"
  by (induction xs) (auto split: sum.splits)

lemma valid_request_tasks:
  assumes "post_purchases body = Issue q"
  shows "\<exists>cn sa its.
     destructure3 body ''customer_name'' ''shipping_address'' ''items'' = Inr (cn, sa, its) \<and>
     validate_items (elements its) = None \<and>
     q = [[(BEGIN_TRANSACTION, No_callback),
           (INSERT_purchases (str cn) (str sa), On_insert_purchase (elements its))]]"
  using assms
  by (auto simp: post_purchases_def validate_items_no_issue
      split: sum.splits prod.splits if_splits option.splits)

lemma passes_validationD:
  "passes_validation body \<Longrightarrow> \<exists>cn sa its.
     destructure3 body ''customer_name'' ''shipping_address'' ''items'' = Inr (cn, sa, its) \<and>
     validate_items (elements its) = None \<and>
     post_purchases body = Issue [[(BEGIN_TRANSACTION, No_callback),
          (INSERT_purchases (str cn) (str sa), On_insert_purchase (elements its))]]"
  using valid_request_tasks [of body]
  by (cases "post_purchases body") (auto simp: passes_validation_def)

lemma serialized_start:
  assumes "fault f BEGIN_TRANSACTION = None" and "fault f (INSERT_purchases cn sa) = None"
    and "saved d = None"
  shows "event_loop sched f
       [[(BEGIN_TRANSACTION, No_callback), (INSERT_purchases cn sa, On_insert_purchase xs)]]
       (\<lparr>stockError = False, sent = None, exited = False\<rparr>, d, []) =
     event_loop (tl (tl sched)) f
       [[], insertPurchaseItem_runs (purchases_seq (cur d) + 1) (map line xs),
        updateStock_runs (map line xs),
        [(COMMIT, On_commit (purchases_seq (cur d) + 1))]]
       (\<lparr>stockError = False, sent = None, exited = False\<rparr>,
        \<lparr>cur = (cur d)\<lparr>purchases := purchases (cur d) @
            [(purchases_seq (cur d) + 1, \<lparr>customer_name = cn, shipping_address = sa\<rparr>)],
            purchases_seq := purchases_seq (cur d) + 1\<rparr>,
         saved = Some (cur d)\<rparr>,
        [(BEGIN_TRANSACTION, ok 0 0),
         (INSERT_purchases cn sa, ok (purchases_seq (cur d) + 1) 1)])"
proof -
  have 1: "event_loop sched f
       [[(BEGIN_TRANSACTION, No_callback), (INSERT_purchases cn sa, On_insert_purchase xs)]]
       (\<lparr>stockError = False, sent = None, exited = False\<rparr>, d, []) =
     event_loop (tl sched) f [[(INSERT_purchases cn sa, On_insert_purchase xs)]]
       (\<lparr>stockError = False, sent = None, exited = False\<rparr>, d\<lparr>saved := Some (cur d)\<rparr>,
        [(BEGIN_TRANSACTION, ok 0 0)])"
    using assms
    by (subst event_loop.simps) (simp add: next_task_def pick_def exec_def ok_def)
  show ?thesis
    unfolding 1 using assms
    by (subst event_loop.simps) (cases d, simp add: next_task_def pick_def exec_def ok_def Let_def)
qed

lemma submit_committed:
  assumes parts: "destructure3 body ''customer_name'' ''shipping_address'' ''items'' = Inr (cn, sa, its)"
    and valid: "passes_validation body"
    and nf: "\<And>s. fault f s = None"
    and idle: "saved d = None"
  shows "\<exists>d' jl. submit_purchase sched f body d =
        (Some (201, created_purchase (purchases_seq (cur d) + 1)), d', jl)
     \<and> saved d' = None
     \<and> items (cur d') = decrement_all f (map line (elements its)) (items (cur d))
     \<and> items_seq (cur d') = items_seq (cur d)
     \<and> purchases (cur d') = purchases (cur d) @
          [(purchases_seq (cur d) + 1, \<lparr>customer_name = str cn, shipping_address = str sa\<rparr>)]
     \<and> purchases_seq (cur d') = purchases_seq (cur d) + 1
     \<and> map snd (purchase_items (cur d')) =
          map snd (purchase_items (cur d)) @
          map (line_row (purchases_seq (cur d) + 1)) (map line (elements its))"
proof -
  let ?p = "purchases_seq (cur d) + 1"
  let ?d0 = "\<lparr>cur = (cur d)\<lparr>purchases := purchases (cur d) @
            [(?p, \<lparr>customer_name = str cn, shipping_address = str sa\<rparr>)],
            purchases_seq := ?p\<rparr>,
         saved = Some (cur d)\<rparr>"
  let ?e0 = "\<lparr>stockError = False, sent = None, exited = False\<rparr>"
  let ?l0 = "[(BEGIN_TRANSACTION, ok 0 0), (INSERT_purchases (str cn) (str sa), ok ?p 1)]"
  let ?objs = "[[], insertPurchaseItem_runs ?p (map line (elements its)),
        updateStock_runs (map line (elements its)), [(COMMIT, On_commit ?p)]]"
  from passes_validationD [OF valid] parts
  have q: "post_purchases body = Issue [[(BEGIN_TRANSACTION, No_callback),
          (INSERT_purchases (str cn) (str sa), On_insert_purchase (elements its))]]"
    by auto
  obtain e' d' l' where run: "event_loop (tl (tl sched)) f ?objs (?e0, ?d0, ?l0) = (e', d', l')"
    by (cases "event_loop (tl (tl sched)) f ?objs (?e0, ?d0, ?l0)")
  from before_commit [OF nf _ _ run, of "cur d"]
  have "lines_done f ?p (map line (elements its)) (map line (elements its)) ?d0 d'"
    "sent e' = Some (201, created_purchase ?p)" "saved d' = None"
    by simp_all
  moreover have "submit_purchase sched f body d = (sent e', d', l')"
    using serialized_start [of f "str cn" "str sa" d sched "elements its", OF nf nf idle] run q
    by (simp add: submit_purchase_def serve_def)
  ultimately show ?thesis
    by (simp add: lines_done_def)
qed

section \<open>Stock updates\<close>

lemma sql_minus_exact:
  "0 < q \<Longrightarrow> q \<le> a \<Longrightarrow> a \<le> 2 ^ 53 \<Longrightarrow> sql_minus f a q = a - q"
  by (simp add: sql_minus_def exact_def)


lemma take_stock_keys: "map fst (take_stock i q rows) = map fst rows"
  by (simp add: take_stock_def split_def comp_def)

lemma same_key_same_row:
  "distinct (map fst rows) \<Longrightarrow> map_of rows i = Some it \<Longrightarrow> (i, x) \<in> set rows \<Longrightarrow> x = it"
  by (simp add: map_of_is_SomeI)

lemma updateStock_only_row:
  assumes "distinct (map fst rows)" and "map_of rows i = Some it" and "q \<le> stock it"
  shows "updateStock f q i q rows =
     map (\<lambda>(k, x). (k, if k = i then x\<lparr>stock := sql_minus f (stock x) q\<rparr> else x)) rows"
proof -
  have "\<forall>(k, x) \<in> set rows. k = i \<longrightarrow> q \<le> stock x"
    using same_key_same_row [OF assms(1,2)] assms(3) by auto
  then show ?thesis
    by (induction rows) auto
qed

lemma updateStock_hit:
  assumes "distinct (map fst rows)" and "map_of rows i = Some it" and "q \<le> stock it"
    and "0 < q" and "stock it \<le> 2 ^ 53"
  shows "updateStock f q i q rows = take_stock i q rows"
proof -
  have "\<forall>(k, x) \<in> set rows. k = i \<longrightarrow> x = it"
    using same_key_same_row [OF assms(1,2)] by auto
  then have "map (\<lambda>(k, x). (k, if k = i then x\<lparr>stock := sql_minus f (stock x) q\<rparr> else x)) rows
     = take_stock i q rows"
    unfolding take_stock_def using sql_minus_exact [OF assms(4,3,5), of f]
    by (intro map_cong) auto
  with updateStock_only_row [OF assms(1-3)] show ?thesis by simp
qed

lemma map_of_take_stock:
  "map_of (take_stock i q rows) k =
   map_option (\<lambda>x. x\<lparr>stock := stock x - (if k = i then q else 0)\<rparr>) (map_of rows k)"
  unfolding take_stock_def by (induction rows) auto

lemma decrement_all_affordable:
  "distinct (map fst rows) \<Longrightarrow>
   \<forall>l \<in> set ls. \<forall>it. map_of rows (fst l) = Some it \<longrightarrow> stock it \<le> 2 ^ 53 \<Longrightarrow>
   list_all (\<lambda>l. 0 < snd l) ls \<Longrightarrow> affordable ls rows \<Longrightarrow>
   decrement_all f ls rows = map (\<lambda>(k, x). (k, x\<lparr>stock := stock x - requested k ls\<rparr>)) rows"
proof (induction ls arbitrary: rows)
  case Nil
  show ?case by (simp add: decrement_all_def requested_def)
next
  case (Cons a ls)
  obtain i q where a: "a = (i, q)" by (cases a)
  from Cons.prems(4) a obtain it where it: "map_of rows i = Some it" "q \<le> stock it"
    and aff: "affordable ls (take_stock i q rows)"
    by (auto split: option.splits)
  from Cons.prems(3) a have q: "0 < q" and pos: "list_all (\<lambda>l. 0 < snd l) ls" by simp_all
  from Cons.prems(2) a it(1) have b: "stock it \<le> 2 ^ 53" by simp
  have hit: "updateStock f q i q rows = take_stock i q rows"
    using Cons.prems(1) it q b by (rule updateStock_hit)
  have d: "distinct (map fst (take_stock i q rows))"
    using Cons.prems(1) by (simp add: take_stock_keys)
  have bd: "\<forall>l \<in> set ls. \<forall>it. map_of (take_stock i q rows) (fst l) = Some it \<longrightarrow> stock it \<le> 2 ^ 53"
  proof (intro ballI allI impI)
    fix l x assume l: "l \<in> set ls" and x: "map_of (take_stock i q rows) (fst l) = Some x"
    then obtain y where y: "map_of rows (fst l) = Some y"
      and xy: "x = y\<lparr>stock := stock y - (if fst l = i then q else 0)\<rparr>"
      by (auto simp: map_of_take_stock)
    from Cons.prems(2) l y have "stock y \<le> 2 ^ 53" by simp
    with xy q show "stock x \<le> 2 ^ 53" by simp
  qed
  have "decrement_all f (a # ls) rows = decrement_all f ls (take_stock i q rows)"
    by (simp add: decrement_all_def a hit)
  also have "\<dots> = map (\<lambda>(k, x). (k, x\<lparr>stock := stock x - requested k ls\<rparr>)) (take_stock i q rows)"
    by (rule Cons.IH [OF d bd pos aff])
  also have "\<dots> = map (\<lambda>(k, x). (k, x\<lparr>stock := stock x - requested k (a # ls)\<rparr>)) rows"
    by (simp add: take_stock_def a requested_def split_def)
  finally show ?case .
qed







section \<open>The stock floor through the event loop\<close>

lemma validated_lines_positive:
  "validate_items xs = None \<Longrightarrow> list_all (\<lambda>l. 0 < snd l) (map line xs)"
proof (induction xs)
  case Nil
  show ?case by simp
next
  case (Cons x xs)
  from Cons.prems obtain i q where g: "get_prop x ''item_id'' = Inr i"
    "get_prop x ''quantity'' = Inr q" "isInteger q" "0 < num q" "validate_items xs = None"
    by (auto split: sum.splits if_splits)
  from g(3,4) have "0 < \<lfloor>num q\<rfloor>" by (cases q) auto
  with g Cons.IH show ?case by (simp add: line_def)
qed






section \<open>The validator\<close>

lemma falsy_or_not_string: "(falsy x \<or> \<not> is_string x) = (\<not> nonempty_text x)"
  by (cases x) (simp_all add: nonempty_text_def)

lemma falsy_or_not_integer: "(falsy x \<or> \<not> isInteger x) = (\<not> nonzero_integer x)"
  by (cases x) (auto simp: nonzero_integer_def)

lemma get_prop_field:
  "get_prop x k = (if x = JUndefined \<or> x = JNull then Inl TypeError else Inr (field x k))"
  by (cases x) (simp_all add: field_def)

lemma field_null: "field JUndefined k = JUndefined" "field JNull k = JUndefined"
  by (simp_all add: field_def)

lemma not_integer_undefined: "\<not> nonzero_integer JUndefined"
  by (simp add: nonzero_integer_def)

lemma not_text_undefined: "\<not> nonempty_text JUndefined"
  by (simp add: nonempty_text_def)

lemma validate_items_None_iff:
  "validate_items xs = None \<longleftrightarrow>
   list_all (\<lambda>x. nonzero_integer (field x ''item_id'') \<and> positive_integer (field x ''quantity'')) xs"
  by (induction xs)
     (auto simp: get_prop_field field_null not_integer_undefined falsy_or_not_integer
        positive_integer_def)

lemma validate_items_nonnull:
  "list_all (\<lambda>x. x \<noteq> JNull \<and> x \<noteq> JUndefined) xs \<Longrightarrow>
   validate_items xs = None \<or> (\<exists>msg. validate_items xs = Some (Reply (400, error_body msg)))"
proof (induction xs)
  case Nil
  show ?case by simp
next
  case (Cons x xs)
  then show ?case
    by (auto simp: get_prop_field)
qed

lemma validate_items_reply:
  "validate_items xs = Some (Reply r) \<Longrightarrow> \<exists>msg. r = (400, error_body msg)"
  by (induction xs) (auto split: sum.splits if_splits)

lemma post_purchases_reply:
  "post_purchases body = Reply r \<Longrightarrow> \<exists>msg. r = (400, error_body msg)"
  by (auto simp: post_purchases_def dest: validate_items_reply
      split: sum.splits prod.splits if_splits option.splits)

lemma destructure3_total:
  "body \<noteq> JNull \<Longrightarrow> body \<noteq> JUndefined \<Longrightarrow>
   destructure3 body a b c = Inr (field body a, field body b, field body c)"
  by (cases body) (simp_all add: destructure3_def field_def)

lemma destructure3_null:
  "body = JNull \<or> body = JUndefined \<Longrightarrow> destructure3 body a b c = Inl TypeError"
  by (auto simp: destructure3_def)

lemma passes_validation_iff: "passes_validation body \<longleftrightarrow> accepted_request body"
proof (cases "body = JNull \<or> body = JUndefined")
  case True
  then show ?thesis
    by (auto simp: passes_validation_def post_purchases_def destructure3_null
        accepted_request_def field_null not_text_undefined)
next
  case False
  then have b: "body \<noteq> JNull" "body \<noteq> JUndefined" by simp_all
  show ?thesis
    using validate_items_None_iff [of "elements (field body ''items'')"]
    by (auto simp: passes_validation_def post_purchases_def destructure3_total [OF b]
        accepted_request_def falsy_or_not_string validate_items_no_issue
        split: option.splits outcome.splits)
qed

lemma rejection_is_400:
  assumes "body \<noteq> JNull" and "body \<noteq> JUndefined"
    and "list_all (\<lambda>x. x \<noteq> JNull \<and> x \<noteq> JUndefined) (elements (field body ''items''))"
    and "\<not> passes_validation body"
  shows "\<exists>msg. post_purchases body = Reply (400, error_body msg)"
  using validate_items_nonnull [OF assms(3)] assms(4)
  by (auto simp: passes_validation_def post_purchases_def destructure3_total [OF assms(1,2)]
        split: option.splits outcome.splits if_splits)

lemma not_passed_no_access:
  "\<not> passes_validation body \<Longrightarrow> \<exists>r. submit_purchase sched f body d = (Some r, d, [])"
  by (cases "post_purchases body")
     (auto simp: passes_validation_def submit_purchase_def serve_def)

lemma not_accepted_answer:
  assumes "\<not> accepted_request body"
  shows "\<exists>r. submit_purchase sched f body d = (Some r, d, [])
          \<and> ((\<exists>msg. r = (400, JObj [(''error'', JStr msg)]))
             \<or> r = (500, JObj [(''error'', JStr ''Internal Server Error'')]))"
proof (cases "post_purchases body")
  case (Throw x)
  then show ?thesis
    by (simp add: submit_purchase_def serve_def error_handler_def error_body_def)
next
  case (Reply r)
  with post_purchases_reply [OF Reply] show ?thesis
    by (auto simp: submit_purchase_def serve_def error_body_def)
next
  case (Issue q)
  with assms show ?thesis
    by (simp add: passes_validation_iff [symmetric] passes_validation_def)
qed

section \<open>The item endpoints\<close>

lemma updateItem_rows:
  "row \<in> set (updateItem n s p i rows) \<Longrightarrow>
   row \<in> set rows \<or> (stock (snd row) = s \<and> price (snd row) = p)"
  by (induction rows) (auto split: if_splits)

lemma checked_item:
  "check_item nm st pr = None \<Longrightarrow> 0 \<le> \<lfloor>num st\<rfloor> \<and> 0 \<le> num pr"
  by (auto simp: check_item_def split: if_splits)

lemma check_item_iff:
  "check_item nm st pr = None \<longleftrightarrow>
   nonempty_text nm \<and> isInteger st \<and> 0 \<le> num st \<and> is_number pr \<and> 0 \<le> num pr"
  by (auto simp: check_item_def falsy_or_not_string)

lemma check_item_400: "check_item nm st pr = Some r \<Longrightarrow> \<exists>msg. r = (400, error_body msg)"
  by (auto simp: check_item_def split: if_splits)

lemma one_statement:
  assumes "cb = On_insert_item \<or> cb = On_update_item"
  shows "fst (snd (event_loop sched f [[(s, cb)]]
            (\<lparr>stockError = False, sent = None, exited = False\<rparr>, d, []))) = snd (exec f s d)"
proof -
  obtain r d' where ex: "exec f s d = (r, d')" by (cases "exec f s d")
  obtain e' new where rc: "run_callback cb r \<lparr>stockError = False, sent = None, exited = False\<rparr> = (e', new)"
    by (cases "run_callback cb r \<lparr>stockError = False, sent = None, exited = False\<rparr>")
  from assms rc have n: "new = []" "\<not> exited e'"
    by (auto split: option.splits if_splits)
  have "event_loop sched f [[(s, cb)]] (\<lparr>stockError = False, sent = None, exited = False\<rparr>, d, [])
      = event_loop (tl sched) f [[]] (e', d', [(s, r)])"
    using ex rc n by (subst event_loop.simps) (simp add: next_task_def pick_def)
  also have "\<dots> = (e', d', [(s, r)])"
    using n by (subst event_loop.simps) (simp add: next_task_def pick_def)
  finally show ?thesis using ex by simp
qed

lemma exec_insert_item_rows:
  "row \<in> set (items (cur (snd (exec f (INSERT_items n s p) d)))) \<Longrightarrow>
   row \<in> set (items (cur d)) \<or> (stock (snd row) = s \<and> price (snd row) = p)"
  by (auto simp: exec_def Let_def split: option.splits)

lemma exec_update_item_rows:
  "row \<in> set (items (cur (snd (exec f (UPDATE_items n s p i) d)))) \<Longrightarrow>
   row \<in> set (items (cur d)) \<or> (stock (snd row) = s \<and> price (snd row) = p)"
  by (auto simp: exec_def dest: updateItem_rows split: option.splits)

lemma create_item_rows:
  assumes "row \<in> set (items (cur (fst (snd (create_item f body d)))))"
  shows "row \<in> set (items (cur d)) \<or> (0 \<le> stock (snd row) \<and> 0 \<le> price (snd row))"
proof (cases "post_items body")
  case (Issue q)
  then obtain nm st pr where c: "check_item nm st pr = None"
    and q: "q = [[(INSERT_items (str nm) \<lfloor>num st\<rfloor> (num pr), On_insert_item)]]"
    by (auto simp: post_items_def split: sum.splits option.splits)
  have "fst (snd (create_item f body d)) =
      snd (exec f (INSERT_items (str nm) \<lfloor>num st\<rfloor> (num pr)) d)"
    using one_statement [of On_insert_item "[]" f "INSERT_items (str nm) \<lfloor>num st\<rfloor> (num pr)" d]
    by (cases "event_loop [] f q (\<lparr>stockError = False, sent = None, exited = False\<rparr>, d, [])")
       (simp add: create_item_def serve_def Issue q)
  with assms checked_item [OF c] show ?thesis
    by (auto dest!: exec_insert_item_rows)
next
  case (Throw x)
  with assms show ?thesis by (simp add: create_item_def serve_def)
next
  case (Reply x)
  with assms show ?thesis by (simp add: create_item_def serve_def)
qed

lemma update_item_rows:
  assumes "row \<in> set (items (cur (fst (snd (update_item f i body d)))))"
  shows "row \<in> set (items (cur d)) \<or> (0 \<le> stock (snd row) \<and> 0 \<le> price (snd row))"
proof (cases "put_items i body")
  case (Issue q)
  then obtain nm st pr where c: "check_item nm st pr = None"
    and q: "q = [[(UPDATE_items (str nm) \<lfloor>num st\<rfloor> (num pr) i, On_update_item)]]"
    by (auto simp: put_items_def split: sum.splits option.splits)
  have "fst (snd (update_item f i body d)) =
      snd (exec f (UPDATE_items (str nm) \<lfloor>num st\<rfloor> (num pr) i) d)"
    using one_statement [of On_update_item "[]" f "UPDATE_items (str nm) \<lfloor>num st\<rfloor> (num pr) i" d]
    by (cases "event_loop [] f q (\<lparr>stockError = False, sent = None, exited = False\<rparr>, d, [])")
       (simp add: update_item_def serve_def Issue q)
  with assms checked_item [OF c] show ?thesis
    by (auto dest!: exec_update_item_rows)
next
  case (Throw x)
  with assms show ?thesis by (simp add: update_item_def serve_def)
next
  case (Reply x)
  with assms show ?thesis by (simp add: update_item_def serve_def)
qed

lemma double_minus_example: "double_minus 10000000000000000000 1 = 10000000000000000000"
  by code_simp

section \<open>Accepted requests\<close>

lemma accepted_parts:
  assumes "accepted_request body"
  shows "destructure3 body ''customer_name'' ''shipping_address'' ''items'' =
      Inr (field body ''customer_name'', field body ''shipping_address'', field body ''items'')"
proof -
  from assms have "body \<noteq> JNull" "body \<noteq> JUndefined"
    by (auto simp: accepted_request_def field_null not_text_undefined)
  then show ?thesis by (rule destructure3_total)
qed

lemma accepted_lines:
  assumes "accepted_request body"
  shows "map line (elements (field body ''items'')) = lines_of body"
proof -
  have "line x = (\<lfloor>num (field x ''item_id'')\<rfloor>, \<lfloor>num (field x ''quantity'')\<rfloor>)"
    if "nonzero_integer (field x ''item_id'')" for x
  proof -
    from that have "x \<noteq> JNull" "x \<noteq> JUndefined"
      by (auto simp: field_null not_integer_undefined)
    then show ?thesis by (simp add: line_def get_prop_field)
  qed
  with assms show ?thesis
    by (auto simp: accepted_request_def lines_of_def list_all_iff)
qed

lemma accepted_positive:
  assumes "accepted_request body"
  shows "list_all (\<lambda>l. 0 < snd l) (lines_of body)"
proof -
  from assms have "passes_validation body" by (simp add: passes_validation_iff)
  from passes_validationD [OF this] accepted_parts [OF assms]
  have "validate_items (elements (field body ''items'')) = None" by auto
  from validated_lines_positive [OF this] accepted_lines [OF assms] show ?thesis by simp
qed


text \<open>
  The flag \<open>stockError\<close> is never read after a callback has set it: whatever the stock
  and the schedule, a request that passes validation is answered 201 when the storage
  layer does not fail.
\<close>

lemma stock_error_never_read:
  assumes "passes_validation body" and "\<And>s. fault f s = None" and "saved d = None"
  shows "fst (submit_purchase sched f body d) =
    Some (201, JObj [(''success'', JBool True),
                     (''purchase_id'', JNum (of_int (purchases_seq (cur d) + 1)))])"
proof -
  from passes_validationD [OF assms(1)] obtain cn sa its where
    "destructure3 body ''customer_name'' ''shipping_address'' ''items'' = Inr (cn, sa, its)"
    by blast
  from submit_committed [of body cn sa its f d sched, OF this assms(1) assms(2) assms(3)]
  show ?thesis by (auto simp: created_purchase_def)
qed

section \<open>The properties\<close>

text \<open>
  C1. The claim fails where the arithmetic of the store is not exact. An item of stock
  \<open>10^19\<close>, which \<open>POST /items\<close> accepts and SQLite keeps as a double, and one line
  of quantity 1: the request is accepted, the item exists with stock at least the
  quantity, the update matches its row and the purchase is committed and answered 201,
  and the stock is \<open>10^19\<close> afterwards, the double nearest to \<open>10^19 - 1\<close>.
\<close>

theorem huge_stock_not_reduced:
  "accepted_request (purchase_request [(1, 1)])
   \<and> affordable (lines_of (purchase_request [(1, 1)]))
       (items (cur (scenario_store 10000000000000000000)))
   \<and> (case submit_purchase [] double_storage (purchase_request [(1, 1)])
             (scenario_store 10000000000000000000) of
        (resp, d', jl) \<Rightarrow>
          resp = Some (201, JObj [(''success'', JBool True), (''purchase_id'', JNum 1)])
        \<and> jl = [(BEGIN_TRANSACTION, \<lparr>err = None, lastID = 0, changes = 0\<rparr>),
                (INSERT_purchases ''Ann'' ''1 Main St'', \<lparr>err = None, lastID = 1, changes = 1\<rparr>),
                (INSERT_purchase_items 1 1 1, \<lparr>err = None, lastID = 1, changes = 1\<rparr>),
                (UPDATE_stock 1 1 1, \<lparr>err = None, lastID = 0, changes = 1\<rparr>),
                (COMMIT, \<lparr>err = None, lastID = 0, changes = 0\<rparr>)]
        \<and> items (cur d') =
            [(1, \<lparr>name = ''widget'', stock = 10000000000000000000, price = 5\<rparr>)])"
  by (simp add: eval_defs accepted_request_def lines_of_def field_def nonempty_text_def
      nonzero_integer_def positive_integer_def take_stock_def
      double_storage_def double_minus_example)

text \<open>
  C1, amended. A request the validator accepts, on a connection outside a transaction and
  a storage layer that does not fail, whose every line finds its item with stock at least
  the requested quantity at the time the line is applied, where no item a line names has
  a stock above \<open>2^53\<close>: under every schedule the answer is 201 with the new purchase
  identifier, the purchase header and one row per line are stored, and the stock of every
  item is reduced by exactly the quantity requested of it (by nothing for an item no line
  names). The ids of \<open>items\<close> are distinct, as its PRIMARY KEY demands.
\<close>

theorem purchase_applied:
  assumes valid: "accepted_request body"
    and nf: "\<And>s. fault f s = None"
    and idle: "saved d = None"
    and keys: "distinct (map fst (items (cur d)))"
    and bounded: "\<forall>l \<in> set (lines_of body).
        \<forall>it. map_of (items (cur d)) (fst l) = Some it \<longrightarrow> stock it \<le> 2 ^ 53"
    and enough: "affordable (lines_of body) (items (cur d))"
  shows "case submit_purchase sched f body d of (resp, d', jl) \<Rightarrow>
      resp = Some (201, JObj [(''success'', JBool True),
                              (''purchase_id'', JNum (of_int (purchases_seq (cur d) + 1)))])
    \<and> saved d' = None
    \<and> purchases (cur d') = purchases (cur d) @
          [(purchases_seq (cur d) + 1,
            \<lparr>customer_name = str (field body ''customer_name''),
             shipping_address = str (field body ''shipping_address'')\<rparr>)]
    \<and> map snd (purchase_items (cur d')) =
          map snd (purchase_items (cur d)) @
          map (line_row (purchases_seq (cur d) + 1)) (lines_of body)
    \<and> items (cur d') =
          map (\<lambda>(k, x). (k, x\<lparr>stock := stock x - requested k (lines_of body)\<rparr>))
            (items (cur d))"
proof -
  have pv: "passes_validation body" using valid by (simp add: passes_validation_iff)
  from submit_committed [OF accepted_parts [OF valid] pv nf idle, of sched]
    decrement_all_affordable [OF keys bounded accepted_positive [OF valid] enough, of f]
  show ?thesis
    by (auto simp: accepted_lines [OF valid] created_purchase_def)
qed

text \<open>Scenario A: stock 10, one line of quantity 3; the answer carries purchase
  identifier 1 and the stock becomes 7.\<close>

theorem purchase_applied_witness:
  "case submit_purchase [] no_faults (purchase_request [(1, 3)]) (scenario_store 10) of
     (resp, d', jl) \<Rightarrow>
       resp = Some (201, JObj [(''success'', JBool True), (''purchase_id'', JNum 1)])
     \<and> saved d' = None
     \<and> purchases (cur d') = [(1, \<lparr>customer_name = ''Ann'', shipping_address = ''1 Main St''\<rparr>)]
     \<and> map snd (purchase_items (cur d')) = [\<lparr>purchase_id = 1, item_id = 1, quantity = 3\<rparr>]
     \<and> items (cur d') = [(1, \<lparr>name = ''widget'', stock = 7, price = 5\<rparr>)]"
proof -
  have 1: "accepted_request (purchase_request [(1, 3)])"
    by (simp add: accepted_request_def field_def nonempty_text_def nonzero_integer_def
        positive_integer_def purchase_request_def request_line_def)
  have 2: "\<And>s. fault no_faults s = None" by (simp add: no_faults_def)
  have 3: "saved (scenario_store 10) = None" by (simp add: scenario_store_def)
  have 4: "distinct (map fst (items (cur (scenario_store 10))))" by (simp add: scenario_store_def)
  have 5: "\<forall>l \<in> set (lines_of (purchase_request [(1, 3)])).
      \<forall>it. map_of (items (cur (scenario_store 10))) (fst l) = Some it \<longrightarrow> stock it \<le> 2 ^ 53"
    by (simp add: scenario_store_def lines_of_def field_def purchase_request_def request_line_def)
  have 6: "affordable (lines_of (purchase_request [(1, 3)])) (items (cur (scenario_store 10)))"
    by (simp add: scenario_store_def lines_of_def field_def purchase_request_def request_line_def
        take_stock_def)
  show ?thesis
    using purchase_applied [OF 1 2 3 4 5 6, of "[]"]
    by (simp add: scenario_store_def lines_of_def field_def purchase_request_def request_line_def
        line_row_def requested_def split: prod.splits)
qed

text \<open>
  C2. Scenario B: stock 2, one line of quantity 5. The stock update matches no row
  (\<open>changes = 0\<close>), yet the purchase and its line are committed and the answer is 201:
  the handler tests \<open>stockError\<close> before the callback that sets it has run.
\<close>

theorem insufficient_stock_committed:
  "submit_purchase [] no_faults (purchase_request [(1, 5)]) (scenario_store 2) =
     (Some (201, JObj [(''success'', JBool True), (''purchase_id'', JNum 1)]),
      \<lparr>cur = \<lparr>items = [(1, \<lparr>name = ''widget'', stock = 2, price = 5\<rparr>)], items_seq = 1,
              purchases = [(1, \<lparr>customer_name = ''Ann'', shipping_address = ''1 Main St''\<rparr>)],
              purchases_seq = 1,
              purchase_items = [(1, \<lparr>purchase_id = 1, item_id = 1, quantity = 5\<rparr>)],
              purchase_items_seq = 1\<rparr>,
       saved = None\<rparr>,
      [(BEGIN_TRANSACTION, \<lparr>err = None, lastID = 0, changes = 0\<rparr>),
       (INSERT_purchases ''Ann'' ''1 Main St'', \<lparr>err = None, lastID = 1, changes = 1\<rparr>),
       (INSERT_purchase_items 1 1 5, \<lparr>err = None, lastID = 1, changes = 1\<rparr>),
       (UPDATE_stock 5 1 5, \<lparr>err = None, lastID = 0, changes = 0\<rparr>),
       (COMMIT, \<lparr>err = None, lastID = 0, changes = 0\<rparr>)])"
  by (simp add: eval_defs)




text \<open>
  C4. The claim fails for a negative item identifier: the specification's validator
  rejects the request, the handler lets it pass.
\<close>

theorem negative_item_id_accepted:
  "\<not> claimed_request (purchase_request [(- 1, 1)]) \<and> passes_validation (purchase_request [(- 1, 1)])"
  by (simp add: claimed_request_def field_def positive_integer_def nonempty_text_def eval_defs)

text \<open>
  C4, amended. For a body that is not null: the request passes validation exactly when
  customer name and shipping address are non-empty text, the lines are a non-empty array,
  every line's item identifier is an integer other than zero and every line's quantity is
  a positive integer. When no line is null, a request that does not pass is answered 400
  with a validation message. A request that does not pass changes nothing and executes no
  statement.
\<close>

theorem validator_rejects_iff:
  assumes "body \<noteq> JNull" and "body \<noteq> JUndefined"
  shows "(passes_validation body \<longleftrightarrow> accepted_request body)
       \<and> (list_all (\<lambda>x. x \<noteq> JNull \<and> x \<noteq> JUndefined) (elements (field body ''items'')) \<longrightarrow>
            ((\<exists>msg. post_purchases body = Reply (400, error_body msg)) \<longleftrightarrow>
             \<not> accepted_request body))
       \<and> (\<not> passes_validation body \<longrightarrow>
            (\<exists>r. submit_purchase sched f body d = (Some r, d, [])))"
proof (intro conjI impI)
  show pv: "passes_validation body \<longleftrightarrow> accepted_request body"
    by (rule passes_validation_iff)
  show "(\<exists>msg. post_purchases body = Reply (400, error_body msg)) \<longleftrightarrow> \<not> accepted_request body"
    if "list_all (\<lambda>x. x \<noteq> JNull \<and> x \<noteq> JUndefined) (elements (field body ''items''))"
  proof
    assume "\<exists>msg. post_purchases body = Reply (400, error_body msg)"
    then have "\<not> passes_validation body" by (auto simp: passes_validation_def)
    with pv show "\<not> accepted_request body" by simp
  next
    assume "\<not> accepted_request body"
    with pv have "\<not> passes_validation body" by simp
    with assms that show "\<exists>msg. post_purchases body = Reply (400, error_body msg)"
      by (rule rejection_is_400)
  qed
  show "\<exists>r. submit_purchase sched f body d = (Some r, d, [])" if "\<not> passes_validation body"
    using that by (rule not_passed_no_access)
qed

text \<open>Item identifier \<open>-1\<close> passes; item identifier \<open>0\<close> is answered 400.\<close>

theorem validator_rejects_iff_witness:
  "passes_validation (purchase_request [(- 1, 1)])
   \<and> accepted_request (purchase_request [(- 1, 1)])
   \<and> post_purchases (purchase_request [(0, 1)]) = Reply (400, error_body ''Item ID must be an integer'')
   \<and> \<not> accepted_request (purchase_request [(0, 1)])
   \<and> submit_purchase [] no_faults (purchase_request [(0, 1)]) (scenario_store 10) =
       (Some (400, error_body ''Item ID must be an integer''), scenario_store 10, [])"
proof -
  have a: "purchase_request [(- 1, 1)] \<noteq> JNull" "purchase_request [(- 1, 1)] \<noteq> JUndefined"
    by (simp_all add: purchase_request_def)
  have b: "purchase_request [(0, 1)] \<noteq> JNull" "purchase_request [(0, 1)] \<noteq> JUndefined"
    by (simp_all add: purchase_request_def)
  have c: "accepted_request (purchase_request [(- 1, 1)])"
    by (simp add: accepted_request_def field_def nonzero_integer_def positive_integer_def
        nonempty_text_def purchase_request_def request_line_def)
  have d: "\<not> accepted_request (purchase_request [(0, 1)])"
    by (simp add: accepted_request_def field_def nonzero_integer_def positive_integer_def
        nonempty_text_def purchase_request_def request_line_def)
  have e: "list_all (\<lambda>x. x \<noteq> JNull \<and> x \<noteq> JUndefined)
      (elements (field (purchase_request [(0, 1)]) ''items''))"
    by (simp add: field_def purchase_request_def request_line_def)
  show ?thesis
    using validator_rejects_iff [OF a, where sched = "[]" and f = no_faults and d = "scenario_store 10"]
      validator_rejects_iff [OF b, where sched = "[]" and f = no_faults and d = "scenario_store 10"]
      c d e
    by (auto simp: eval_defs)
qed

text \<open>
  C5. Scenario D: stock 5, two lines of quantity 3 on the same item, in an order of
  execution sqlite3 produces: \<open>COMMIT\<close> runs once the statements of the first line
  have, and the statements of the second line run after it. The updates run in request
  order, the first matches one row and the second none; the purchase and both lines are
  stored all the same, the stock ends at 2 and the answer is 201.
\<close>

theorem joint_shortfall_committed:
  "submit_purchase [0, 0, 0, 1, 2, 0, 0] no_faults (purchase_request [(1, 3), (1, 3)])
       (scenario_store 5) =
     (Some (201, JObj [(''success'', JBool True), (''purchase_id'', JNum 1)]),
      \<lparr>cur = \<lparr>items = [(1, \<lparr>name = ''widget'', stock = 2, price = 5\<rparr>)], items_seq = 1,
              purchases = [(1, \<lparr>customer_name = ''Ann'', shipping_address = ''1 Main St''\<rparr>)],
              purchases_seq = 1,
              purchase_items = [(1, \<lparr>purchase_id = 1, item_id = 1, quantity = 3\<rparr>),
                                (2, \<lparr>purchase_id = 1, item_id = 1, quantity = 3\<rparr>)],
              purchase_items_seq = 2\<rparr>,
       saved = None\<rparr>,
      [(BEGIN_TRANSACTION, \<lparr>err = None, lastID = 0, changes = 0\<rparr>),
       (INSERT_purchases ''Ann'' ''1 Main St'', \<lparr>err = None, lastID = 1, changes = 1\<rparr>),
       (INSERT_purchase_items 1 1 3, \<lparr>err = None, lastID = 1, changes = 1\<rparr>),
       (UPDATE_stock 3 1 3, \<lparr>err = None, lastID = 0, changes = 1\<rparr>),
       (COMMIT, \<lparr>err = None, lastID = 0, changes = 0\<rparr>),
       (INSERT_purchase_items 1 1 3, \<lparr>err = None, lastID = 2, changes = 1\<rparr>),
       (UPDATE_stock 3 1 3, \<lparr>err = None, lastID = 0, changes = 0\<rparr>)])"
  by (simp add: eval_defs)

text \<open>
  C6. Stock 10, four lines of quantity 1, and a \<open>COMMIT\<close> that the store refuses, in an
  order of execution sqlite3 produces. Every stock update matches its row. The answer is
  500 with the fixed body of the error handler, which holds nothing of the storage error,
  and \<open>ROLLBACK\<close> is executed after the failed \<open>COMMIT\<close>. But the statements of the
  lines are issued from a callback, outside \<open>db.serialize\<close>, on statement objects of
  their own, and nothing makes \<open>COMMIT\<close> or \<open>ROLLBACK\<close> wait for them: those that
  run after the \<open>ROLLBACK\<close> are applied outside any transaction. The request leaves a
  purchase line of a purchase that does not exist, and a stock of 9.
\<close>

theorem commit_failure_not_undone:
  "submit_purchase [0, 0, 0, 1, 2, 0, 1, 0, 1, 2, 0, 0] commit_fails
       (purchase_request [(1, 1), (1, 1), (1, 1), (1, 1)]) (scenario_store 10) =
     (Some (500, JObj [(''error'', JStr ''Internal Server Error'')]),
      \<lparr>cur = \<lparr>items = [(1, \<lparr>name = ''widget'', stock = 9, price = 5\<rparr>)], items_seq = 1,
              purchases = [], purchases_seq = 0,
              purchase_items = [(1, \<lparr>purchase_id = 1, item_id = 1, quantity = 1\<rparr>)],
              purchase_items_seq = 1\<rparr>,
       saved = None\<rparr>,
      [(BEGIN_TRANSACTION, \<lparr>err = None, lastID = 0, changes = 0\<rparr>),
       (INSERT_purchases ''Ann'' ''1 Main St'', \<lparr>err = None, lastID = 1, changes = 1\<rparr>),
       (INSERT_purchase_items 1 1 1, \<lparr>err = None, lastID = 1, changes = 1\<rparr>),
       (UPDATE_stock 1 1 1, \<lparr>err = None, lastID = 0, changes = 1\<rparr>),
       (COMMIT, \<lparr>err = Some ''database is locked'', lastID = 0, changes = 0\<rparr>),
       (INSERT_purchase_items 1 1 1, \<lparr>err = None, lastID = 2, changes = 1\<rparr>),
       (UPDATE_stock 1 1 1, \<lparr>err = None, lastID = 0, changes = 1\<rparr>),
       (INSERT_purchase_items 1 1 1, \<lparr>err = None, lastID = 3, changes = 1\<rparr>),
       (UPDATE_stock 1 1 1, \<lparr>err = None, lastID = 0, changes = 1\<rparr>),
       (ROLLBACK, \<lparr>err = None, lastID = 0, changes = 0\<rparr>),
       (INSERT_purchase_items 1 1 1, \<lparr>err = None, lastID = 1, changes = 1\<rparr>),
       (UPDATE_stock 1 1 1, \<lparr>err = None, lastID = 0, changes = 1\<rparr>)])"
  by (simp add: eval_defs)

text \<open>
  C7. A request that passes validation, submitted twice with no storage failure, is
  answered 201 twice with two different purchase identifiers, and both purchase headers
  are stored, under every schedule. This holds whether or not the lines found enough
  stock.
\<close>

theorem resubmission_creates_second_purchase:
  assumes parts: "destructure3 body ''customer_name'' ''shipping_address'' ''items'' = Inr (cn, sa, its)"
    and valid: "passes_validation body"
    and nf: "\<And>s. fault f s = None"
    and idle: "saved d = None"
  shows "case submit_purchase sched1 f body d of (r1, d1, l1) \<Rightarrow>
         case submit_purchase sched2 f body d1 of (r2, d2, l2) \<Rightarrow>
           r1 = Some (201, created_purchase (purchases_seq (cur d) + 1))
         \<and> r2 = Some (201, created_purchase (purchases_seq (cur d) + 2))
         \<and> r1 \<noteq> r2
         \<and> purchases (cur d2) = purchases (cur d) @
              [(purchases_seq (cur d) + 1, \<lparr>customer_name = str cn, shipping_address = str sa\<rparr>),
               (purchases_seq (cur d) + 2, \<lparr>customer_name = str cn, shipping_address = str sa\<rparr>)]"
proof -
  from submit_committed [of body cn sa its f d sched1, OF parts valid nf idle]
  obtain d1 l1 where 1: "submit_purchase sched1 f body d =
        (Some (201, created_purchase (purchases_seq (cur d) + 1)), d1, l1)"
    and p1: "saved d1 = None"
      "purchases (cur d1) = purchases (cur d) @
          [(purchases_seq (cur d) + 1, \<lparr>customer_name = str cn, shipping_address = str sa\<rparr>)]"
      "purchases_seq (cur d1) = purchases_seq (cur d) + 1"
    by blast
  from submit_committed [of body cn sa its f d1 sched2, OF parts valid nf p1(1)]
  obtain d2 l2 where 2: "submit_purchase sched2 f body d1 =
        (Some (201, created_purchase (purchases_seq (cur d1) + 1)), d2, l2)"
    and p2: "purchases (cur d2) = purchases (cur d1) @
          [(purchases_seq (cur d1) + 1, \<lparr>customer_name = str cn, shipping_address = str sa\<rparr>)]"
    by blast
  show ?thesis
    using 1 2 p1 p2 by (simp add: created_purchase_def)
qed

text \<open>Scenario A submitted twice: purchase identifiers 1 and 2.\<close>

theorem resubmission_creates_second_purchase_witness:
  "case submit_purchase [] no_faults (purchase_request [(1, 3)]) (scenario_store 10) of
     (r1, d1, l1) \<Rightarrow>
   case submit_purchase [] no_faults (purchase_request [(1, 3)]) d1 of (r2, d2, l2) \<Rightarrow>
       r1 = Some (201, JObj [(''success'', JBool True), (''purchase_id'', JNum 1)])
     \<and> r2 = Some (201, JObj [(''success'', JBool True), (''purchase_id'', JNum 2)])
     \<and> r1 \<noteq> r2
     \<and> purchases (cur d2) =
         [(1, \<lparr>customer_name = ''Ann'', shipping_address = ''1 Main St''\<rparr>),
          (2, \<lparr>customer_name = ''Ann'', shipping_address = ''1 Main St''\<rparr>)]"
proof -
  have 1: "destructure3 (purchase_request [(1, 3)]) ''customer_name'' ''shipping_address'' ''items''
       = Inr (JStr ''Ann'', JStr ''1 Main St'', JArr [request_line (1, 3)])"
    by (simp add: destructure3_def purchase_request_def)
  have 2: "passes_validation (purchase_request [(1, 3)])"
    by (simp add: eval_defs)
  have 3: "\<And>s. fault no_faults s = None" by (simp add: no_faults_def)
  have 4: "saved (scenario_store 10) = None" by (simp add: scenario_store_def)
  show ?thesis
    using resubmission_creates_second_purchase
      [where body = "purchase_request [(1, 3)]" and f = no_faults and d = "scenario_store 10"
        and ?sched1.0 = "[]" and ?sched2.0 = "[]", OF 1 2 3 4]
    by (simp add: scenario_store_def created_purchase_def split: prod.splits)
qed

text \<open>
  C8. A request the validator does not accept (what it accepts is stated on the request
  alone, see C4) is answered at once, by a 400 with a message or, when reading the
  request throws, by the fixed 500 of the error handler: no statement is executed (the
  journal is empty: no transaction is begun, no row read or written) and the connection
  is unchanged.
\<close>

theorem rejected_before_storage:
  assumes "\<not> accepted_request body"
  shows "\<exists>r. submit_purchase sched f body d = (Some r, d, [])
          \<and> ((\<exists>msg. r = (400, JObj [(''error'', JStr msg)]))
             \<or> r = (500, JObj [(''error'', JStr ''Internal Server Error'')]))"
  using assms by (rule not_accepted_answer)

text \<open>Scenario C: no lines.\<close>

theorem rejected_before_storage_witness:
  "\<not> accepted_request (purchase_request [])
   \<and> submit_purchase [] no_faults (purchase_request []) (scenario_store 10) =
       (Some (400, JObj [(''error'', JStr ''At least one item is required'')]),
        \<lparr>cur = \<lparr>items = [(1, \<lparr>name = ''widget'', stock = 10, price = 5\<rparr>)], items_seq = 1,
                purchases = [], purchases_seq = 0,
                purchase_items = [], purchase_items_seq = 0\<rparr>,
         saved = None\<rparr>, [])"
proof -
  have 1: "\<not> accepted_request (purchase_request [])"
    by (simp add: accepted_request_def field_def purchase_request_def)
  from rejected_before_storage [OF 1, where sched = "[]" and f = no_faults
      and d = "scenario_store 10"] 1
  show ?thesis
    by (auto simp: eval_defs)
qed

text \<open>
  C9. Two requests of quantity 3 for the one item with stock 5, the second submitted after
  the first has been answered (the interleavings of two requests on the shared connection
  are not modelled). The stock allows one of them; both are answered 201 and both purchases
  are committed, with lines that total 6, while the stock falls by 3 only.
\<close>

theorem second_purchase_committed_without_stock:
  "case submit_purchase [] no_faults (purchase_request [(1, 3)]) (scenario_store 5) of
     (r1, d1, l1) \<Rightarrow>
   case submit_purchase [] no_faults (purchase_request [(1, 3)]) d1 of
     (r2, d2, l2) \<Rightarrow>
       r1 = Some (201, JObj [(''success'', JBool True), (''purchase_id'', JNum 1)])
     \<and> r2 = Some (201, JObj [(''success'', JBool True), (''purchase_id'', JNum 2)])
     \<and> saved d2 = None
     \<and> purchases (cur d2) =
         [(1, \<lparr>customer_name = ''Ann'', shipping_address = ''1 Main St''\<rparr>),
          (2, \<lparr>customer_name = ''Ann'', shipping_address = ''1 Main St''\<rparr>)]
     \<and> map snd (purchase_items (cur d2)) =
         [\<lparr>purchase_id = 1, item_id = 1, quantity = 3\<rparr>,
          \<lparr>purchase_id = 2, item_id = 1, quantity = 3\<rparr>]
     \<and> items (cur d2) = [(1, \<lparr>name = ''widget'', stock = 2, price = 5\<rparr>)]
     \<and> l2 = [(BEGIN_TRANSACTION, \<lparr>err = None, lastID = 0, changes = 0\<rparr>),
             (INSERT_purchases ''Ann'' ''1 Main St'', \<lparr>err = None, lastID = 2, changes = 1\<rparr>),
             (INSERT_purchase_items 2 1 3, \<lparr>err = None, lastID = 2, changes = 1\<rparr>),
             (UPDATE_stock 3 1 3, \<lparr>err = None, lastID = 0, changes = 0\<rparr>),
             (COMMIT, \<lparr>err = None, lastID = 0, changes = 0\<rparr>)]"
  by (simp add: eval_defs)

text \<open>
  C10. \<open>app.post("/items")\<close> and \<open>app.put("/items/:id")\<close> answer 400, executing no
  statement and leaving the connection unchanged, when the name is not non-empty text,
  the stock is not an integer at or above zero, or the price is not a number at or above
  zero. Whatever the request, every row of \<open>items\<close> after either endpoint is a row that
  was there before or has stock and price at or above zero.
\<close>

theorem item_writes_checked:
  "(destructure3 body ''name'' ''stock'' ''price'' = Inr (nm, st, pr) \<and>
    \<not> (nonempty_text nm \<and> isInteger st \<and> 0 \<le> num st \<and> is_number pr \<and> 0 \<le> num pr) \<longrightarrow>
      (\<exists>msg. create_item f body d = (Some (400, error_body msg), d, [])
           \<and> update_item f i body d = (Some (400, error_body msg), d, [])))
   \<and> (\<forall>row \<in> set (items (cur (fst (snd (create_item f body d))))).
         row \<in> set (items (cur d)) \<or> (0 \<le> stock (snd row) \<and> 0 \<le> price (snd row)))
   \<and> (\<forall>row \<in> set (items (cur (fst (snd (update_item f i body d))))).
         row \<in> set (items (cur d)) \<or> (0 \<le> stock (snd row) \<and> 0 \<le> price (snd row)))"
proof (intro conjI impI ballI)
  assume a: "destructure3 body ''name'' ''stock'' ''price'' = Inr (nm, st, pr) \<and>
    \<not> (nonempty_text nm \<and> isInteger st \<and> 0 \<le> num st \<and> is_number pr \<and> 0 \<le> num pr)"
  then have "check_item nm st pr \<noteq> None" by (simp add: check_item_iff)
  then obtain r where r: "check_item nm st pr = Some r" by auto
  then obtain msg where "r = (400, error_body msg)" using check_item_400 by blast
  with r a show "\<exists>msg. create_item f body d = (Some (400, error_body msg), d, [])
           \<and> update_item f i body d = (Some (400, error_body msg), d, [])"
    by (auto simp: create_item_def update_item_def serve_def post_items_def put_items_def)
next
  fix row assume "row \<in> set (items (cur (fst (snd (create_item f body d)))))"
  then show "row \<in> set (items (cur d)) \<or> (0 \<le> stock (snd row) \<and> 0 \<le> price (snd row))"
    by (rule create_item_rows)
next
  fix row assume "row \<in> set (items (cur (fst (snd (update_item f i body d)))))"
  then show "row \<in> set (items (cur d)) \<or> (0 \<le> stock (snd row) \<and> 0 \<le> price (snd row))"
    by (rule update_item_rows)
qed

text \<open>A stock of \<open>-1\<close> is answered 400 by both endpoints; a stock of 4 is stored.\<close>

theorem item_writes_checked_witness:
  "create_item no_faults (item_request (JStr ''bolt'') (JNum (- 1)) (JNum 2)) (scenario_store 10) =
     (Some (400, error_body ''Stock must be a non-negative integer''), scenario_store 10, [])
   \<and> update_item no_faults 1 (item_request (JStr ''bolt'') (JNum (- 1)) (JNum 2)) (scenario_store 10) =
     (Some (400, error_body ''Stock must be a non-negative integer''), scenario_store 10, [])
   \<and> items (cur (fst (snd (create_item no_faults (item_request (JStr ''bolt'') (JNum 4) (JNum 2))
        (scenario_store 10))))) =
       [(1, \<lparr>name = ''widget'', stock = 10, price = 5\<rparr>), (2, \<lparr>name = ''bolt'', stock = 4, price = 2\<rparr>)]
   \<and> items (cur (fst (snd (update_item no_faults 1 (item_request (JStr ''bolt'') (JNum 4) (JNum 2))
        (scenario_store 10))))) =
       [(1, \<lparr>name = ''bolt'', stock = 4, price = 2\<rparr>)]"
proof -
  have 1: "destructure3 (item_request (JStr ''bolt'') (JNum (- 1)) (JNum 2)) ''name'' ''stock'' ''price''
      = Inr (JStr ''bolt'', JNum (- 1), JNum 2)"
    by (simp add: destructure3_def item_request_def)
  show ?thesis
    using item_writes_checked [of "item_request (JStr ''bolt'') (JNum (- 1)) (JNum 2)"
        "JStr ''bolt''" "JNum (- 1)" "JNum 2" no_faults "scenario_store 10" 1]
      item_writes_checked [of "item_request (JStr ''bolt'') (JNum 4) (JNum 2)"
        "JStr ''bolt''" "JNum 4" "JNum 2" no_faults "scenario_store 10" 1]
    by (simp add: 1 nonempty_text_def create_item_def update_item_def serve_def post_items_def
        put_items_def check_item_def destructure3_def item_request_def scenario_store_def
        no_faults_def exec_def ok_def error_body_def event_loop.simps next_task_def pick_def)
qed

end
